theory Spec2Isabelle
  imports Main "HOL-Library.Word"
begin

section \<open>Python values\<close>

text \<open>
  A Python \<open>str\<close> is a sequence of Unicode code points, so it is modelled as a list of
  naturals; \<open>ascii\<close> turns an ASCII literal into such a list. \<open>bytes\<close> are lists of
  8-bit words.
\<close>

type_synonym pystr = "nat list"
type_synonym bytes = "8 word list"

definition ascii :: "string \<Rightarrow> pystr" where
  "ascii cs = map of_char cs"

text \<open>
  What \<open>response.json()\<close> can return, and what is stored in dictionaries: \<open>None\<close>,
  booleans, integers, floats (kept as their 64 IEEE bits; only their truth value is ever
  inspected), strings, lists and dictionaries. A dictionary is an association list in
  insertion order, as a Python \<open>dict\<close> is.
\<close>

datatype pyval =
    PNone
  | PBool bool
  | PInt int
  | PFloat "64 word"
  | PStr pystr
  | PList "pyval list"
  | PDict "(pystr \<times> pyval) list"

text \<open>Python truthiness, as tested by \<open>if x:\<close>.\<close>

fun truthy :: "pyval \<Rightarrow> bool" where
  "truthy PNone = False"
| "truthy (PBool b) = b"
| "truthy (PInt i) = (i \<noteq> 0)"
| "truthy (PFloat w) = (take_bit 63 w \<noteq> 0)"
| "truthy (PStr s) = (s \<noteq> [])"
| "truthy (PList xs) = (xs \<noteq> [])"
| "truthy (PDict d) = (d \<noteq> [])"

text \<open>\<open>d.get(k)\<close> and \<open>d[k] = v\<close> on an insertion-ordered dictionary.\<close>

fun dict_get :: "(pystr \<times> 'v) list \<Rightarrow> pystr \<Rightarrow> 'v option" where
  "dict_get [] k = None"
| "dict_get ((k', v) # d) k = (if k' = k then Some v else dict_get d k)"

fun dict_set :: "(pystr \<times> 'v) list \<Rightarrow> pystr \<Rightarrow> 'v \<Rightarrow> (pystr \<times> 'v) list" where
  "dict_set [] k v = [(k, v)]"
| "dict_set ((k', v') # d) k v = (if k' = k then (k, v) # d else (k', v') # dict_set d k v)"

definition dict_get_default :: "(pystr \<times> 'v) list \<Rightarrow> pystr \<Rightarrow> 'v \<Rightarrow> 'v" where
  "dict_get_default d k dflt = (case dict_get d k of Some v \<Rightarrow> v | None \<Rightarrow> dflt)"

text \<open>The exceptions that occur in the program.\<close>

datatype exn =
    InvalidSignatureError
  | HTTPException nat pystr
  | UnicodeDecodeError
  | WebhookParseError
  | LineApiError
  | RequestsError
  | HTTPStatusError
  | JSONDecodeError
  | AttributeError
  | TypeError

text \<open>\<open>obj.get(key, dflt)\<close>: only a dictionary has the method.\<close>

definition py_get :: "pyval \<Rightarrow> pystr \<Rightarrow> pyval \<Rightarrow> exn + pyval" where
  "py_get obj key dflt =
     (case obj of PDict d \<Rightarrow> Inr (dict_get_default d key dflt) | _ \<Rightarrow> Inl AttributeError)"

subsection \<open>\<open>str.strip()\<close>\<close>

text \<open>The code points for which \<open>str.isspace\<close> holds.\<close>

definition py_isspace :: "nat \<Rightarrow> bool" where
  "py_isspace c \<longleftrightarrow>
     (9 \<le> c \<and> c \<le> 13) \<or> (28 \<le> c \<and> c \<le> 32) \<or> c = 133 \<or> c = 160 \<or> c = 5760 \<or>
     (8192 \<le> c \<and> c \<le> 8202) \<or> c = 8232 \<or> c = 8233 \<or> c = 8239 \<or> c = 8287 \<or> c = 12288"

definition py_strip :: "pystr \<Rightarrow> pystr" where
  "py_strip s = rev (dropWhile py_isspace (rev (dropWhile py_isspace s)))"

subsection \<open>\<open>re.sub(r'<think>.*?</think>', '', answer, flags=re.DOTALL)\<close>\<close>

definition think_open :: pystr where
  "think_open = ascii ''<think>''"

definition think_close :: pystr where
  "think_close = ascii ''</think>''"

definition startswith :: "pystr \<Rightarrow> pystr \<Rightarrow> bool" where
  "startswith s p = (take (length p) s = p)"

text \<open>
  The text after the first occurrence of the closing tag, if there is one: with
  \<open>DOTALL\<close> the lazy \<open>.*?\<close> runs over any character up to the nearest closing tag.
\<close>

fun after_close :: "pystr \<Rightarrow> pystr option" where
  "after_close [] = None"
| "after_close (c # cs) =
     (if startswith (c # cs) think_close then Some (drop (length think_close) (c # cs))
      else after_close cs)"

text \<open>
  The substitution scans from the left. At a position where the opening tag starts and a
  closing tag follows it, the whole match is dropped and the scan goes on behind it;
  anywhere else the character is kept.
\<close>

function re_sub_think :: "pystr \<Rightarrow> pystr" where
  "re_sub_think [] = []"
| "re_sub_think (c # cs) =
     (if startswith (c # cs) think_open then
        (case after_close (drop (length think_open) (c # cs)) of
           Some rest \<Rightarrow> re_sub_think rest
         | None \<Rightarrow> c # re_sub_think cs)
      else c # re_sub_think cs)"
  by pat_completeness auto
termination
proof (relation "measure length")
  fix c :: nat and cs rest :: pystr
  assume found: "after_close (drop (length think_open) (c # cs)) = Some rest"
  have shorter: "after_close s = Some r \<Longrightarrow> length r \<le> length s" for s r
    by (induction s) (auto split: if_splits)
  have "length rest \<le> length (drop (length think_open) (c # cs))"
    using found by (rule shorter)
  moreover have "length think_open = 7"
    by (simp add: think_open_def ascii_def)
  ultimately show "(rest, c # cs) \<in> measure length"
    by simp
qed simp_all

subsection \<open>\<open>bytes.decode('utf-8')\<close>\<close>

definition utf8_cont :: "nat \<Rightarrow> bool" where
  "utf8_cont b \<longleftrightarrow> 128 \<le> b \<and> b < 192"

text \<open>
  Strict UTF-8 decoding over the byte values: \<open>None\<close> stands for \<open>UnicodeDecodeError\<close>
  (a stray or missing continuation byte, an overlong form, a surrogate, a value above
  U+10FFFF).
\<close>

fun utf8_dec :: "nat list \<Rightarrow> pystr option" where
  "utf8_dec [] = Some []"
| "utf8_dec (b0 # bs) =
     (if b0 < 128 then map_option ((#) b0) (utf8_dec bs)
      else if 194 \<le> b0 \<and> b0 < 224 then
        (case bs of
           b1 # r \<Rightarrow>
             if utf8_cont b1
             then map_option ((#) ((b0 - 192) * 64 + (b1 - 128))) (utf8_dec r)
             else None
         | _ \<Rightarrow> None)
      else if 224 \<le> b0 \<and> b0 < 240 then
        (case bs of
           b1 # b2 # r \<Rightarrow>
             let cp = (b0 - 224) * 4096 + (b1 - 128) * 64 + (b2 - 128) in
             if utf8_cont b1 \<and> utf8_cont b2 \<and> 2048 \<le> cp \<and> \<not> (55296 \<le> cp \<and> cp \<le> 57343)
             then map_option ((#) cp) (utf8_dec r)
             else None
         | _ \<Rightarrow> None)
      else if 240 \<le> b0 \<and> b0 < 245 then
        (case bs of
           b1 # b2 # b3 # r \<Rightarrow>
             let cp = (b0 - 240) * 262144 + (b1 - 128) * 4096 + (b2 - 128) * 64 + (b3 - 128) in
             if utf8_cont b1 \<and> utf8_cont b2 \<and> utf8_cont b3 \<and> 65536 \<le> cp \<and> cp \<le> 1114111
             then map_option ((#) cp) (utf8_dec r)
             else None
         | _ \<Rightarrow> None)
      else None)"

definition utf8_decode :: "bytes \<Rightarrow> pystr option" where
  "utf8_decode bs = utf8_dec (map unat bs)"

section \<open>The outside world and the state of the process\<close>

text \<open>
  What \<open>requests.post\<close>, \<open>raise_for_status\<close> and \<open>response.json()\<close> make of one HTTP
  exchange: the post itself raises, the status check raises, the body is not JSON, or
  the body parses to a value.
\<close>

datatype http_outcome = PostRaised | StatusRaised | BodyNotJson | Json pyval

text \<open>
  The exchange underneath: no response at all, or a response with a status code and a
  body that is JSON or is not. The HTTP library raises from the post when there is no
  response; its status check raises for the client and server error codes, 400 to 599,
  and for no other code, so that a status such as 204 or 300 goes on to the body.
\<close>

datatype http_response = NoResponse | Response nat "pyval option"

definition requests_outcome :: "http_response \<Rightarrow> http_outcome" where
  "requests_outcome r =
     (case r of
        NoResponse \<Rightarrow> PostRaised
      | Response status content \<Rightarrow>
          if 400 \<le> status \<and> status < 600 then StatusRaised
          else (case content of None \<Rightarrow> BodyNotJson | Some v \<Rightarrow> Json v))"

text \<open>
  Everything the process does to the outside, and every write to the session map, in the
  order it happens. An outbound call is recorded with its outcome.
\<close>

datatype action =
    GetContent pystr "bytes option"
  | Upload pystr bytes pystr http_outcome
  | ChatMessages "(pystr \<times> pyval) list" http_outcome
  | SessionSet pystr pyval
  | Reply pystr pystr bool

text \<open>
  The webhook events the platform SDK delivers to the registered handlers: a text
  message (sender, reply token, text), an image, video or audio message (sender, reply
  token, message id, the message's \<open>type\<close> field), and any other event.
\<close>

datatype event =
    TextMessageEvent pystr pystr pystr
  | FileMessageEvent pystr pystr pystr pystr
  | UnhandledEvent

text \<open>
  The collaborators outside the repository, as parameters. The signature check and the
  event parser of the platform SDK depend on the request only; the answer of every other
  call may depend on everything that has happened so far, so it takes the trace.
  \<open>line_get_content\<close> and \<open>line_reply\<close> say whether the SDK call returns or raises.
\<close>

record world =
  line_validate :: "pystr \<Rightarrow> pystr \<Rightarrow> bool"
  line_parse :: "pystr \<Rightarrow> event list option"
  line_get_content :: "action list \<Rightarrow> pystr \<Rightarrow> bytes option"
  line_reply :: "action list \<Rightarrow> pystr \<Rightarrow> pystr \<Rightarrow> bool"
  dify_upload :: "action list \<Rightarrow> pystr \<Rightarrow> bytes \<Rightarrow> pystr \<Rightarrow> http_outcome"
  dify_chat :: "action list \<Rightarrow> (pystr \<times> pyval) list \<Rightarrow> http_outcome"

record state =
  user_sessions :: "pystr \<rightharpoonup> pyval"
  trace :: "action list"

definition log :: "action \<Rightarrow> state \<Rightarrow> state" where
  "log a s = s\<lparr>trace := trace s @ [a]\<rparr>"

definition session_set :: "pystr \<Rightarrow> pyval \<Rightarrow> state \<Rightarrow> state" where
  "session_set user_id v s =
     log (SessionSet user_id v) (s\<lparr>user_sessions := (user_sessions s)(user_id \<mapsto> v)\<rparr>)"

definition session_get :: "state \<Rightarrow> pystr \<Rightarrow> pyval" where
  "session_get s user_id = (case user_sessions s user_id of Some v \<Rightarrow> v | None \<Rightarrow> PStr [])"

section \<open>The program\<close>

text \<open>The three Thai reply texts of the source, as code points.\<close>

definition apology_generic :: pystr where
  "apology_generic =
     [3586, 3629, 3629, 3616, 3633, 3618, 32, 3619, 3632, 3610, 3610, 3586, 3633, 3604,
      3586, 3657, 3629, 3591, 3594, 3633, 3656, 3623, 3588, 3619, 3634, 3623]"

definition apology_upload :: pystr where
  "apology_upload =
     [3586, 3629, 3629, 3616, 3633, 3618, 32, 3652, 3617, 3656, 3626, 3634, 3617, 3634,
      3619, 3606, 3629, 3633, 3611, 3650, 3627, 3621, 3604, 3652, 3615, 3621, 3660, 3652,
      3611, 3618, 3633, 3591, 32, 65, 73, 32, 3652, 3604, 3657]"

definition apology_file :: pystr where
  "apology_file =
     [3586, 3629, 3629, 3616, 3633, 3618, 32, 3648, 3585, 3636, 3604, 3586, 3657, 3629,
      3612, 3636, 3604, 3614, 3621, 3634, 3604, 3651, 3609, 3585, 3634, 3619, 3611, 3619,
      3632, 3617, 3623, 3621, 3612, 3621, 3652, 3615, 3621, 3660]"

definition reply_text :: "world \<Rightarrow> pystr \<Rightarrow> pystr \<Rightarrow> state \<Rightarrow> (exn + unit) \<times> state" where
  "reply_text w reply_token text s =
     (let ok = line_reply w (trace s) reply_token text;
          s' = log (Reply reply_token text ok) s
      in (if ok then Inr () else Inl LineApiError, s'))"

text \<open>\<open>requests.post(...)\<close>, \<open>response.raise_for_status()\<close>, \<open>response.json()\<close>.\<close>

definition http_json :: "http_outcome \<Rightarrow> exn + pyval" where
  "http_json out =
     (case out of
        PostRaised \<Rightarrow> Inl RequestsError
      | StatusRaised \<Rightarrow> Inl HTTPStatusError
      | BodyNotJson \<Rightarrow> Inl JSONDecodeError
      | Json v \<Rightarrow> Inr v)"

text \<open>
  What \<open>upload_file_to_dify\<close> returns for an outcome of its post: the \<open>id\<close> field of
  the response, and \<open>None\<close> when the field is missing or anything in the \<open>try\<close> raised.
\<close>

definition upload_result :: "http_outcome \<Rightarrow> pyval" where
  "upload_result out =
     (let tried = (case http_json out of
                     Inl e \<Rightarrow> Inl e
                   | Inr j \<Rightarrow> py_get j (ascii ''id'') PNone)
      in (case tried of Inl e \<Rightarrow> PNone | Inr v \<Rightarrow> v))"

definition upload_file_to_dify ::
  "world \<Rightarrow> bytes \<Rightarrow> pystr \<Rightarrow> pystr \<Rightarrow> state \<Rightarrow> pyval \<times> state" where
  "upload_file_to_dify w file_content filename user_id s =
     (let out = dify_upload w (trace s) filename file_content user_id;
          s' = log (Upload filename file_content user_id out) s
      in (upload_result out, s'))"

text \<open>The JSON body \<open>call_dify_api\<close> builds.\<close>

definition chat_payload :: "pystr \<Rightarrow> pystr \<Rightarrow> pyval \<Rightarrow> pyval \<Rightarrow> (pystr \<times> pyval) list" where
  "chat_payload query user_id conversation_id file_id =
     (let payload =
            [(ascii ''inputs'', PDict []),
             (ascii ''query'', PStr query),
             (ascii ''response_mode'', PStr (ascii ''blocking'')),
             (ascii ''user'', PStr user_id),
             (ascii ''files'', PList [])];
          payload = (if truthy conversation_id
                     then dict_set payload (ascii ''conversation_id'') conversation_id
                     else payload);
          payload = (if truthy file_id
                     then dict_set payload (ascii ''files'')
                            (PList [PDict [(ascii ''type'', PStr (ascii ''image'')),
                                           (ascii ''transfer_method'', PStr (ascii ''local_file'')),
                                           (ascii ''upload_file_id'', file_id)]])
                     else payload)
      in payload)"

text \<open>What \<open>call_dify_api\<close> makes of the response, inside its \<open>try\<close>.\<close>

definition chat_result :: "http_outcome \<Rightarrow> exn + (pystr \<times> pyval)" where
  "chat_result out =
     (case http_json out of
        Inl e \<Rightarrow> Inl e
      | Inr result \<Rightarrow>
          (case py_get result (ascii ''answer'') (PStr apology_generic) of
             Inl e \<Rightarrow> Inl e
           | Inr answer \<Rightarrow>
               (case py_get result (ascii ''conversation_id'') (PStr []) of
                  Inl e \<Rightarrow> Inl e
                | Inr new_conversation_id \<Rightarrow>
                    (case answer of
                       PStr a \<Rightarrow> Inr (py_strip (re_sub_think a), new_conversation_id)
                     | _ \<Rightarrow> Inl TypeError))))"

definition call_dify_api ::
  "world \<Rightarrow> pystr \<Rightarrow> pystr \<Rightarrow> pyval \<Rightarrow> pyval \<Rightarrow> state \<Rightarrow> (exn + (pystr \<times> pyval)) \<times> state" where
  "call_dify_api w query user_id conversation_id file_id s =
     (let payload = chat_payload query user_id conversation_id file_id;
          out = dify_chat w (trace s) payload;
          s' = log (ChatMessages payload out) s
      in (chat_result out, s'))"

definition process_and_reply ::
  "world \<Rightarrow> pystr \<Rightarrow> pystr \<Rightarrow> pystr \<Rightarrow> pyval \<Rightarrow> pyval \<Rightarrow> state \<Rightarrow> (exn + unit) \<times> state" where
  "process_and_reply w reply_token query user_id conversation_id file_id s =
     (case call_dify_api w query user_id conversation_id file_id s of
        (Inl e, s1) \<Rightarrow> reply_text w reply_token apology_generic s1
      | (Inr (dify_response, new_conversation_id), s1) \<Rightarrow>
          (let s2 = (if truthy new_conversation_id
                     then session_set user_id new_conversation_id s1
                     else s1)
           in (case reply_text w reply_token dify_response s2 of
                 (Inl e, s3) \<Rightarrow> reply_text w reply_token apology_generic s3
               | (Inr u, s3) \<Rightarrow> (Inr u, s3))))"

definition handle_text_message ::
  "world \<Rightarrow> pystr \<Rightarrow> pystr \<Rightarrow> pystr \<Rightarrow> state \<Rightarrow> (exn + unit) \<times> state" where
  "handle_text_message w user_id reply_token user_message s =
     (let conversation_id = session_get s user_id
      in process_and_reply w reply_token user_message user_id conversation_id PNone s)"

definition extension_map :: "(pystr \<times> pystr) list" where
  "extension_map =
     [(ascii ''image'', ascii ''jpg''), (ascii ''video'', ascii ''mp4''),
      (ascii ''audio'', ascii ''m4a'')]"

definition handle_file_message ::
  "world \<Rightarrow> pystr \<Rightarrow> pystr \<Rightarrow> pystr \<Rightarrow> pystr \<Rightarrow> state \<Rightarrow> (exn + unit) \<times> state" where
  "handle_file_message w user_id reply_token message_id message_type s =
     (let conversation_id = session_get s user_id;
          got = line_get_content w (trace s) message_id;
          s1 = log (GetContent message_id got) s
      in (case got of
            None \<Rightarrow> reply_text w reply_token apology_file s1
          | Some file_content \<Rightarrow>
              (let extension = dict_get_default extension_map message_type (ascii ''bin'');
                   filename = message_id @ ascii ''.'' @ extension;
                   (dify_file_id, s2) = upload_file_to_dify w file_content filename user_id s1;
                   (r, s3) =
                     (if truthy dify_file_id
                      then process_and_reply w reply_token
                             (ascii ''['' @ message_type @ ascii '' uploaded]'')
                             user_id conversation_id dify_file_id s2
                      else reply_text w reply_token apology_upload s2)
               in (case r of
                     Inl e \<Rightarrow> reply_text w reply_token apology_file s3
                   | Inr u \<Rightarrow> (Inr u, s3)))))"

text \<open>
  Modelled from the spec: the platform SDK's \<open>WebhookHandler.handle\<close> is not part of the
  repository. It checks the signature against the channel secret before anything else
  and fails with \<open>InvalidSignatureError\<close> on a mismatch; otherwise it parses the body
  into events and hands each, in order, to the handler registered for its kind. Events
  of any other kind are ignored; an exception of a handler ends the call.
\<close>

definition dispatch :: "world \<Rightarrow> event \<Rightarrow> state \<Rightarrow> (exn + unit) \<times> state" where
  "dispatch w ev s =
     (case ev of
        TextMessageEvent user_id reply_token text \<Rightarrow>
          handle_text_message w user_id reply_token text s
      | FileMessageEvent user_id reply_token message_id message_type \<Rightarrow>
          handle_file_message w user_id reply_token message_id message_type s
      | UnhandledEvent \<Rightarrow> (Inr (), s))"

fun handle_events :: "world \<Rightarrow> event list \<Rightarrow> state \<Rightarrow> (exn + unit) \<times> state" where
  "handle_events w [] s = (Inr (), s)"
| "handle_events w (ev # evs) s =
     (case dispatch w ev s of
        (Inl e, s') \<Rightarrow> (Inl e, s')
      | (Inr u, s') \<Rightarrow> handle_events w evs s')"

definition webhook_handle :: "world \<Rightarrow> pystr \<Rightarrow> pystr \<Rightarrow> state \<Rightarrow> (exn + unit) \<times> state" where
  "webhook_handle w body signature s =
     (if \<not> line_validate w body signature then (Inl InvalidSignatureError, s)
      else (case line_parse w body of
              None \<Rightarrow> (Inl WebhookParseError, s)
            | Some evs \<Rightarrow> handle_events w evs s))"

text \<open>
  A POST to \<open>/callback\<close>: the \<open>X-Line-Signature\<close> header, if sent, and the raw body.
  The result is the returned body, or the exception that leaves the function.
\<close>

record request =
  signature_header :: "pystr option"
  body :: bytes

definition callback :: "world \<Rightarrow> request \<Rightarrow> state \<Rightarrow> (exn + pystr) \<times> state" where
  "callback w req s =
     (let signature = (case signature_header req of Some v \<Rightarrow> v | None \<Rightarrow> [])
      in (case utf8_decode (body req) of
            None \<Rightarrow> (Inl UnicodeDecodeError, s)
          | Some body_str \<Rightarrow>
              (case webhook_handle w body_str signature s of
                 (Inl InvalidSignatureError, s') \<Rightarrow>
                   (Inl (HTTPException 400 (ascii ''Invalid signature'')), s')
               | (Inl e, s') \<Rightarrow> (Inl e, s')
               | (Inr u, s') \<Rightarrow> (Inr (ascii ''OK''), s'))))"

text \<open>The process serves one request after the other; the state lives on between them.\<close>

fun serve :: "world \<Rightarrow> request list \<Rightarrow> state \<Rightarrow> (exn + pystr) list \<times> state" where
  "serve w [] s = ([], s)"
| "serve w (req # reqs) s =
     (let (r, s') = callback w req s;
          (rs, s'') = serve w reqs s'
      in (r # rs, s''))"

definition initial_state :: state where
  "initial_state = \<lparr>user_sessions = Map.empty, trace = []\<rparr>"

section \<open>Vocabulary of the properties\<close>

text \<open>The actions a run adds to the trace, and the calls of each kind among actions.\<close>

definition new_actions :: "state \<Rightarrow> state \<Rightarrow> action list" where
  "new_actions s s' = drop (length (trace s)) (trace s')"

definition uploads :: "action list \<Rightarrow> (pystr \<times> bytes \<times> pystr \<times> http_outcome) list" where
  "uploads tr =
     concat (map (\<lambda>a. case a of Upload fn c u out \<Rightarrow> [(fn, c, u, out)] | _ \<Rightarrow> []) tr)"

definition chats :: "action list \<Rightarrow> ((pystr \<times> pyval) list \<times> http_outcome) list" where
  "chats tr = concat (map (\<lambda>a. case a of ChatMessages p out \<Rightarrow> [(p, out)] | _ \<Rightarrow> []) tr)"

definition replies :: "action list \<Rightarrow> (pystr \<times> pystr \<times> bool) list" where
  "replies tr = concat (map (\<lambda>a. case a of Reply tok t ok \<Rightarrow> [(tok, t, ok)] | _ \<Rightarrow> []) tr)"

definition stores :: "action list \<Rightarrow> (pystr \<times> pyval) list" where
  "stores tr = concat (map (\<lambda>a. case a of SessionSet u v \<Rightarrow> [(u, v)] | _ \<Rightarrow> []) tr)"

text \<open>The kind-to-extension table in the words of the specification.\<close>

definition ext :: "pystr \<Rightarrow> pystr" where
  "ext k =
     (if k = ascii ''image'' then ascii ''jpg''
      else if k = ascii ''video'' then ascii ''mp4''
      else if k = ascii ''audio'' then ascii ''m4a''
      else ascii ''bin'')"

text \<open>The reply token an event carries, and whether it is a media event.\<close>

fun reply_token :: "event \<Rightarrow> pystr" where
  "reply_token (TextMessageEvent user_id tok text) = tok"
| "reply_token (FileMessageEvent user_id tok message_id message_type) = tok"
| "reply_token UnhandledEvent = []"

fun is_file_event :: "event \<Rightarrow> bool" where
  "is_file_event (FileMessageEvent user_id tok message_id message_type) = True"
| "is_file_event ev = False"

text \<open>
  A world in which every collaborator does its part: the signature \<open>sig\<close> verifies, a
  body is a text message of sender \<open>U1\<close>, content is delivered, uploads and chat calls
  are answered, replies are accepted.
\<close>

definition good_world :: world where
  "good_world =
     \<lparr>line_validate = (\<lambda>body sg. sg = ascii ''sig''),
      line_parse = (\<lambda>body. Some [TextMessageEvent (ascii ''U1'') (ascii ''rt'') body]),
      line_get_content = (\<lambda>tr m. Some [1, 2, 3]),
      line_reply = (\<lambda>tr tok t. True),
      dify_upload = (\<lambda>tr fn c u. Json (PDict [(ascii ''id'', PStr (ascii ''f1''))])),
      dify_chat = (\<lambda>tr p. Json (PDict [(ascii ''answer'', PStr (ascii ''hi'')),
                                         (ascii ''conversation_id'', PStr (ascii ''c1''))]))\<rparr>"

text \<open>
  The same world with the chat endpoint answering 503, with the upload endpoint
  answering 503, and with an upload endpoint that answers without an \<open>id\<close>.
\<close>

definition chat_down_world :: world where
  "chat_down_world = good_world\<lparr>dify_chat := (\<lambda>tr p. requests_outcome (Response 503 None))\<rparr>"

definition upload_down_world :: world where
  "upload_down_world =
     good_world\<lparr>dify_upload := (\<lambda>tr fn c u. requests_outcome (Response 503 None))\<rparr>"

definition upload_no_id_world :: world where
  "upload_no_id_world = good_world\<lparr>dify_upload := (\<lambda>tr fn c u. Json (PDict []))\<rparr>"

text \<open>
  Worlds in which an endpoint answers with status 300 and a JSON body, and worlds in
  which an endpoint answers 503 while the platform rejects the first reply of a run and
  accepts any later one.
\<close>

definition redirect_chat_world :: world where
  "redirect_chat_world =
     good_world\<lparr>dify_chat := (\<lambda>tr p. requests_outcome (Response 300
        (Some (PDict [(ascii ''answer'', PStr (ascii ''x'')),
                      (ascii ''conversation_id'', PStr (ascii ''c''))]))))\<rparr>"

definition chat_down_retry_world :: world where
  "chat_down_retry_world =
     good_world\<lparr>dify_chat := (\<lambda>tr p. requests_outcome (Response 503 None)),
                line_reply := (\<lambda>tr tok t. replies tr \<noteq> [])\<rparr>"

definition redirect_upload_world :: world where
  "redirect_upload_world =
     good_world\<lparr>dify_upload := (\<lambda>tr fn c u. requests_outcome (Response 300
        (Some (PDict [(ascii ''id'', PStr (ascii ''f1''))]))))\<rparr>"

definition upload_down_retry_world :: world where
  "upload_down_retry_world =
     good_world\<lparr>dify_upload := (\<lambda>tr fn c u. requests_outcome (Response 503 None)),
                line_reply := (\<lambda>tr tok t. replies tr \<noteq> [])\<rparr>"



text \<open>
  The continuation token a successful chat call returns (none when the call fails or the
  token is empty), the token a payload carries, the chat calls made for one sender, the
  token the session map holds for a sender, and how the token moves on from one call to
  the next: replaced when a token is returned, kept otherwise.
\<close>

definition returned_token :: "http_outcome \<Rightarrow> pyval option" where
  "returned_token out =
     (case chat_result out of
        Inl e \<Rightarrow> None
      | Inr (ans, nc) \<Rightarrow> if truthy nc then Some nc else None)"

definition sent_token :: "(pystr \<times> pyval) list \<Rightarrow> pyval option" where
  "sent_token p = dict_get p (ascii ''conversation_id'')"

definition chats_of :: "pystr \<Rightarrow> action list \<Rightarrow> ((pystr \<times> pyval) list \<times> http_outcome) list" where
  "chats_of u tr = filter (\<lambda>(p, out). dict_get p (ascii ''user'') = Some (PStr u)) (chats tr)"

definition stored_token :: "state \<Rightarrow> pystr \<Rightarrow> pyval option" where
  "stored_token s u =
     (case user_sessions s u of
        None \<Rightarrow> None
      | Some v \<Rightarrow> if truthy v then Some v else None)"

definition next_token :: "pyval option \<Rightarrow> http_outcome \<Rightarrow> pyval option" where
  "next_token t out = (case returned_token out of Some t' \<Rightarrow> Some t' | None \<Rightarrow> t)"

fun chain :: "pyval option \<Rightarrow> ((pystr \<times> pyval) list \<times> http_outcome) list \<Rightarrow> bool" where
  "chain t [] = True"
| "chain t ((p, out) # cs) = (sent_token p = t \<and> chain (next_token t out) cs)"

fun final_token :: "pyval option \<Rightarrow> ((pystr \<times> pyval) list \<times> http_outcome) list \<Rightarrow> pyval option" where
  "final_token t [] = t"
| "final_token t ((p, out) # cs) = final_token (next_token t out) cs"

text \<open>
  One stretch of a run, as far as the session map is concerned: the trace grows; either
  no chat call is made and the map stays, or one chat call is made for a sender, with
  the sender's stored token, and the map takes the returned token, if there is one.
\<close>

definition step :: "world \<Rightarrow> state \<Rightarrow> state \<Rightarrow> bool" where
  "step w s s' \<longleftrightarrow>
     (\<exists>xs. trace s' = trace s @ xs \<and>
        ((chats xs = [] \<and> stores xs = [] \<and> user_sessions s' = user_sessions s) \<or>
         (\<exists>u q f tr.
            chats xs = [(chat_payload q u (session_get s u) f,
                         dify_chat w tr (chat_payload q u (session_get s u) f))] \<and>
            stores xs =
              (case returned_token (dify_chat w tr (chat_payload q u (session_get s u) f)) of
                 None \<Rightarrow> [] | Some t \<Rightarrow> [(u, t)]) \<and>
            user_sessions s' =
              (case returned_token (dify_chat w tr (chat_payload q u (session_get s u) f)) of
                 None \<Rightarrow> user_sessions s | Some t \<Rightarrow> (user_sessions s)(u \<mapsto> t)))))"

text \<open>
  A world whose chat endpoint hands out the conversation id \<open>c1\<close> on the first call and
  an empty one from then on, and a request with a valid signature.
\<close>

definition fading_world :: world where
  "fading_world =
     good_world\<lparr>dify_chat := (\<lambda>tr p.
        Json (PDict [(ascii ''answer'', PStr (ascii ''hi'')),
                     (ascii ''conversation_id'',
                      PStr (if chats tr = [] then ascii ''c1'' else []))]))\<rparr>"

definition signed_request :: "bytes \<Rightarrow> request" where
  "signed_request b = \<lparr>signature_header = Some (ascii ''sig''), body = b\<rparr>"

definition reply_c1 :: http_outcome where
  "reply_c1 = Json (PDict [(ascii ''answer'', PStr (ascii ''hi'')),
                           (ascii ''conversation_id'', PStr (ascii ''c1''))])"

definition reply_none :: http_outcome where
  "reply_none = Json (PDict [(ascii ''answer'', PStr (ascii ''hi'')),
                             (ascii ''conversation_id'', PStr [])])"

text \<open>
  Whether a value is a string; a world whose chat endpoint returns a number as
  conversation id; and a world in which the platform rejects every reply.
\<close>

definition is_str :: "pyval \<Rightarrow> bool" where
  "is_str v = (case v of PStr t \<Rightarrow> True | _ \<Rightarrow> False)"

definition numeric_token_world :: world where
  "numeric_token_world =
     good_world\<lparr>dify_chat := (\<lambda>tr p.
        Json (PDict [(ascii ''answer'', PStr (ascii ''hi'')),
                     (ascii ''conversation_id'', PInt 5)]))\<rparr>"


section \<open>Basic facts\<close>

lemma apologies_distinct:
  "apology_upload \<noteq> apology_generic" "apology_file \<noteq> apology_generic"
  "apology_upload \<noteq> apology_file"
  by (simp_all add: apology_upload_def apology_generic_def apology_file_def)


lemma trace_log: "trace (log a s) = trace s @ [a]"
  by (simp add: log_def)

lemma user_sessions_log: "user_sessions (log a s) = user_sessions s"
  by (simp add: log_def)

lemma calls_simps:
  "uploads [] = []" "chats [] = []" "replies [] = []" "stores [] = []"
  "uploads (a # tr) =
     (case a of Upload fn c u out \<Rightarrow> [(fn, c, u, out)] | _ \<Rightarrow> []) @ uploads tr"
  "chats (a # tr) = (case a of ChatMessages p out \<Rightarrow> [(p, out)] | _ \<Rightarrow> []) @ chats tr"
  "replies (a # tr) = (case a of Reply tok t ok \<Rightarrow> [(tok, t, ok)] | _ \<Rightarrow> []) @ replies tr"
  "stores (a # tr) = (case a of SessionSet u v \<Rightarrow> [(u, v)] | _ \<Rightarrow> []) @ stores tr"
  "uploads (xs @ ys) = uploads xs @ uploads ys"
  "chats (xs @ ys) = chats xs @ chats ys"
  "replies (xs @ ys) = replies xs @ replies ys"
  "stores (xs @ ys) = stores xs @ stores ys"
  by (simp_all add: uploads_def chats_def replies_def stores_def)

lemma extension_lookup: "dict_get_default extension_map k (ascii ''bin'') = ext k"
  by (auto simp: dict_get_default_def extension_map_def ext_def)

lemma call_dify_api_eq:
  "call_dify_api w q u c f s =
     (chat_result (dify_chat w (trace s) (chat_payload q u c f)),
      log (ChatMessages (chat_payload q u c f) (dify_chat w (trace s) (chat_payload q u c f))) s)"
  by (simp add: call_dify_api_def Let_def)

lemma upload_file_to_dify_eq:
  "upload_file_to_dify w c fn u s =
     (upload_result (dify_upload w (trace s) fn c u),
      log (Upload fn c u (dify_upload w (trace s) fn c u)) s)"
  by (simp add: upload_file_to_dify_def Let_def)

text \<open>What one run of \<open>process_and_reply\<close> does, case by case.\<close>

lemma process_and_reply_run:
  "(case process_and_reply w tok q u c f s of (res, s') \<Rightarrow>
     (case chat_result (dify_chat w (trace s) (chat_payload q u c f)) of
        Inl e \<Rightarrow>
          (\<exists>ok. trace s' = trace s @
               [ChatMessages (chat_payload q u c f) (dify_chat w (trace s) (chat_payload q u c f)),
                Reply tok apology_generic ok] \<and>
             res = (if ok then Inr () else Inl LineApiError)) \<and>
          user_sessions s' = user_sessions s
      | Inr (ans, nc) \<Rightarrow>
          (\<exists>ok ok'. trace s' = trace s @
               [ChatMessages (chat_payload q u c f) (dify_chat w (trace s) (chat_payload q u c f))]
               @ (if truthy nc then [SessionSet u nc] else [])
               @ [Reply tok ans ok]
               @ (if ok then [] else [Reply tok apology_generic ok']) \<and>
             res = (if ok \<or> ok' then Inr () else Inl LineApiError)) \<and>
          user_sessions s' =
            (if truthy nc then (user_sessions s)(u \<mapsto> nc) else user_sessions s)))"
proof (cases "chat_result (dify_chat w (trace s) (chat_payload q u c f))")
  case (Inl e)
  then show ?thesis
    by (auto simp: process_and_reply_def call_dify_api_eq reply_text_def Let_def trace_log
        user_sessions_log split: prod.splits)
next
  case (Inr r)
  obtain ans nc where r: "r = (ans, nc)" by (cases r)
  show ?thesis
    using Inr unfolding r
    by (auto simp: process_and_reply_def call_dify_api_eq reply_text_def Let_def trace_log
        user_sessions_log session_set_def log_def split: prod.splits)
qed

lemma process_and_reply_uploads:
  "\<exists>xs. trace (snd (process_and_reply w tok q u c f s)) = trace s @ xs \<and> uploads xs = []"
  using process_and_reply_run [where w=w and tok=tok and q=q and u=u and c=c and f=f and s=s]
  by (auto simp: calls_simps split: prod.splits sum.splits)

lemma new_actions_append: "trace s' = trace s @ xs \<Longrightarrow> new_actions s s' = xs"
  by (simp add: new_actions_def)

lemma process_and_reply_effect:
  obtains xs ok ok' where
    "trace (snd (process_and_reply w tok q u c f s)) = trace s @ xs"
    "chats xs = [(chat_payload q u c f, dify_chat w (trace s) (chat_payload q u c f))]"
    "uploads xs = []"
    "stores xs =
       (case chat_result (dify_chat w (trace s) (chat_payload q u c f)) of
          Inl e \<Rightarrow> []
        | Inr (ans, nc) \<Rightarrow> if truthy nc then [(u, nc)] else [])"
    "user_sessions (snd (process_and_reply w tok q u c f s)) =
       (case chat_result (dify_chat w (trace s) (chat_payload q u c f)) of
          Inl e \<Rightarrow> user_sessions s
        | Inr (ans, nc) \<Rightarrow> if truthy nc then (user_sessions s)(u \<mapsto> nc) else user_sessions s)"
    "replies xs =
       (case chat_result (dify_chat w (trace s) (chat_payload q u c f)) of
          Inl e \<Rightarrow> [(tok, apology_generic, ok)]
        | Inr (ans, nc) \<Rightarrow> (tok, ans, ok) # (if ok then [] else [(tok, apology_generic, ok')]))"
    "fst (process_and_reply w tok q u c f s) =
       (case chat_result (dify_chat w (trace s) (chat_payload q u c f)) of
          Inl e \<Rightarrow> if ok then Inr () else Inl LineApiError
        | Inr (ans, nc) \<Rightarrow> if ok \<or> ok' then Inr () else Inl LineApiError)"
proof (cases "chat_result (dify_chat w (trace s) (chat_payload q u c f))")
  case (Inl e)
  obtain res s' where par: "process_and_reply w tok q u c f s = (res, s')"
    by (cases "process_and_reply w tok q u c f s")
  from process_and_reply_run [where w=w and tok=tok and q=q and u=u and c=c and f=f and s=s]
  obtain ok where
    "trace s' = trace s @
       [ChatMessages (chat_payload q u c f) (dify_chat w (trace s) (chat_payload q u c f)),
        Reply tok apology_generic ok]"
    "res = (if ok then Inr () else Inl LineApiError)"
    "user_sessions s' = user_sessions s"
    using Inl par by auto
  then show ?thesis
    using Inl par
    by (intro that [of "[ChatMessages (chat_payload q u c f)
          (dify_chat w (trace s) (chat_payload q u c f)), Reply tok apology_generic ok]" ok])
      (simp_all add: calls_simps)
next
  case (Inr r)
  obtain ans nc where r: "r = (ans, nc)" by (cases r)
  obtain res s' where par: "process_and_reply w tok q u c f s = (res, s')"
    by (cases "process_and_reply w tok q u c f s")
  from process_and_reply_run [where w=w and tok=tok and q=q and u=u and c=c and f=f and s=s]
  obtain ok ok' where
    "trace s' = trace s @
       [ChatMessages (chat_payload q u c f) (dify_chat w (trace s) (chat_payload q u c f))]
       @ (if truthy nc then [SessionSet u nc] else [])
       @ [Reply tok ans ok]
       @ (if ok then [] else [Reply tok apology_generic ok'])"
    "res = (if ok \<or> ok' then Inr () else Inl LineApiError)"
    "user_sessions s' = (if truthy nc then (user_sessions s)(u \<mapsto> nc) else user_sessions s)"
    using Inr r par by auto
  then show ?thesis
    using Inr r par
    by (intro that [of "[ChatMessages (chat_payload q u c f)
            (dify_chat w (trace s) (chat_payload q u c f))]
          @ (if truthy nc then [SessionSet u nc] else [])
          @ [Reply tok ans ok]
          @ (if ok then [] else [Reply tok apology_generic ok'])" ok ok'])
      (simp_all add: calls_simps)
qed


lemma reply_text_eq:
  "reply_text w tok t s =
     (if line_reply w (trace s) tok t then Inr () else Inl LineApiError,
      log (Reply tok t (line_reply w (trace s) tok t)) s)"
  by (simp add: reply_text_def Let_def)

lemma handle_file_message_unfold:
  "handle_file_message w u tok m k s =
     (case line_get_content w (trace s) m of
        None \<Rightarrow> reply_text w tok apology_file (log (GetContent m None) s)
      | Some content \<Rightarrow>
          (let s1 = log (GetContent m (Some content)) s;
               fn = m @ ascii ''.'' @ ext k;
               out = dify_upload w (trace s1) fn content u;
               s2 = log (Upload fn content u out) s1;
               (r, s3) =
                 (if truthy (upload_result out)
                  then process_and_reply w tok (ascii ''['' @ k @ ascii '' uploaded]'') u
                         (session_get s u) (upload_result out) s2
                  else reply_text w tok apology_upload s2)
           in (case r of Inl e \<Rightarrow> reply_text w tok apology_file s3 | Inr x \<Rightarrow> (Inr x, s3))))"
  by (simp add: handle_file_message_def Let_def upload_file_to_dify_eq extension_lookup
      split: option.splits)

text \<open>A media event whose upload gives no usable file id.\<close>

lemma file_upload_falsy:
  assumes up: "(fn, c, v, out) \<in> set (uploads (new_actions s (snd (handle_file_message w u tok m k s))))"
      and falsy: "\<not> truthy (upload_result out)"
  shows "chats (new_actions s (snd (handle_file_message w u tok m k s))) = [] \<and>
         (\<exists>ok ok'. replies (new_actions s (snd (handle_file_message w u tok m k s))) =
            (tok, apology_upload, ok) # (if ok then [] else [(tok, apology_file, ok')])) \<and>
         user_sessions (snd (handle_file_message w u tok m k s)) = user_sessions s"
proof (cases "line_get_content w (trace s) m")
  case None
  with up show ?thesis
    by (simp add: handle_file_message_unfold reply_text_eq trace_log new_actions_def calls_simps)
next
  case (Some content)
  let ?s1 = "log (GetContent m (Some content)) s"
  let ?fn = "m @ ascii ''.'' @ ext k"
  let ?out = "dify_upload w (trace ?s1) ?fn content u"
  let ?s2 = "log (Upload ?fn content u ?out) ?s1"
  show ?thesis
  proof (cases "truthy (upload_result ?out)")
    case True
    obtain xs where xs:
      "trace (snd (process_and_reply w tok (ascii ''['' @ k @ ascii '' uploaded]'') u
         (session_get s u) (upload_result ?out) ?s2)) = trace ?s2 @ xs"
      "uploads xs = []"
      by (rule process_and_reply_effect)
    have "uploads (new_actions s (snd (handle_file_message w u tok m k s))) =
        [(?fn, content, u, ?out)]"
      using Some True xs
      by (auto simp: handle_file_message_unfold Let_def reply_text_eq trace_log new_actions_def
          calls_simps split: prod.splits sum.splits)
    with up falsy True show ?thesis by simp
  next
    case False
    with Some show ?thesis
      by (auto simp: handle_file_message_unfold Let_def reply_text_eq trace_log
          user_sessions_log new_actions_def calls_simps)
  qed
qed

lemma chat_payload_fields:
  "dict_get (chat_payload q u c f) (ascii ''inputs'') = Some (PDict [])"
  "dict_get (chat_payload q u c f) (ascii ''query'') = Some (PStr q)"
  "dict_get (chat_payload q u c f) (ascii ''response_mode'') = Some (PStr (ascii ''blocking''))"
  "dict_get (chat_payload q u c f) (ascii ''user'') = Some (PStr u)"
  "dict_get (chat_payload q u c f) (ascii ''files'') =
     Some (if truthy f
           then PList [PDict [(ascii ''type'', PStr (ascii ''image'')),
                              (ascii ''transfer_method'', PStr (ascii ''local_file'')),
                              (ascii ''upload_file_id'', f)]]
           else PList [])"
  "dict_get (chat_payload q u c f) (ascii ''conversation_id'') = (if truthy c then Some c else None)"
  "map fst (chat_payload q u c f) =
     [ascii ''inputs'', ascii ''query'', ascii ''response_mode'', ascii ''user'', ascii ''files'']
     @ (if truthy c then [ascii ''conversation_id''] else [])"
  by (simp_all add: chat_payload_def ascii_def Let_def)

lemma text_chat:
  obtains xs ok ok' where
    "trace (snd (handle_text_message w u tok msg s)) = trace s @ xs"
    "chats xs = [(chat_payload msg u (session_get s u) PNone,
                  dify_chat w (trace s) (chat_payload msg u (session_get s u) PNone))]"
    "user_sessions (snd (handle_text_message w u tok msg s)) =
       (case chat_result (dify_chat w (trace s) (chat_payload msg u (session_get s u) PNone)) of
          Inl e \<Rightarrow> user_sessions s
        | Inr (ans, nc) \<Rightarrow> if truthy nc then (user_sessions s)(u \<mapsto> nc) else user_sessions s)"
    "replies xs =
       (case chat_result (dify_chat w (trace s) (chat_payload msg u (session_get s u) PNone)) of
          Inl e \<Rightarrow> [(tok, apology_generic, ok)]
        | Inr (ans, nc) \<Rightarrow> (tok, ans, ok) # (if ok then [] else [(tok, apology_generic, ok')]))"
  unfolding handle_text_message_def Let_def
  by (rule process_and_reply_effect [where w=w and tok=tok and q=msg and u=u
        and c="session_get s u" and f=PNone and s=s]) blast

lemma text_failure:
  assumes "(p, out) \<in> set (chats (new_actions s (snd (handle_text_message w u tok msg s))))"
      and "chat_result out = Inl e"
  shows "user_sessions (snd (handle_text_message w u tok msg s)) = user_sessions s \<and>
         (\<exists>ok. replies (new_actions s (snd (handle_text_message w u tok msg s))) =
                  [(tok, apology_generic, ok)])"
proof -
  obtain xs ok ok' where xs:
    "trace (snd (handle_text_message w u tok msg s)) = trace s @ xs"
    "chats xs = [(chat_payload msg u (session_get s u) PNone,
                  dify_chat w (trace s) (chat_payload msg u (session_get s u) PNone))]"
    "user_sessions (snd (handle_text_message w u tok msg s)) =
       (case chat_result (dify_chat w (trace s) (chat_payload msg u (session_get s u) PNone)) of
          Inl e \<Rightarrow> user_sessions s
        | Inr (ans, nc) \<Rightarrow> if truthy nc then (user_sessions s)(u \<mapsto> nc) else user_sessions s)"
    "replies xs =
       (case chat_result (dify_chat w (trace s) (chat_payload msg u (session_get s u) PNone)) of
          Inl e \<Rightarrow> [(tok, apology_generic, ok)]
        | Inr (ans, nc) \<Rightarrow> (tok, ans, ok) # (if ok then [] else [(tok, apology_generic, ok')]))"
    by (rule text_chat)
  have new: "new_actions s (snd (handle_text_message w u tok msg s)) = xs"
    using xs(1) by (rule new_actions_append)
  with assms xs(2) have "chat_result (dify_chat w (trace s)
      (chat_payload msg u (session_get s u) PNone)) = Inl e"
    by simp
  with xs(3,4) new show ?thesis
    by simp
qed


text \<open>A media event whose upload gave a file id: the handler is the forwarding step,
  followed by one more reply if that step raised.\<close>

lemma handle_file_message_forwarded:
  assumes "line_get_content w (trace s) m = Some content"
      and "truthy (upload_result (dify_upload w (trace (log (GetContent m (Some content)) s))
             (m @ ascii ''.'' @ ext k) content u))"
  shows "handle_file_message w u tok m k s =
           (let out = dify_upload w (trace (log (GetContent m (Some content)) s))
                        (m @ ascii ''.'' @ ext k) content u;
                s2 = log (Upload (m @ ascii ''.'' @ ext k) content u out)
                       (log (GetContent m (Some content)) s);
                par = process_and_reply w tok (ascii ''['' @ k @ ascii '' uploaded]'') u
                        (session_get s u) (upload_result out) s2
            in (case fst par of
                  Inl e \<Rightarrow> reply_text w tok apology_file (snd par)
                | Inr x \<Rightarrow> (Inr x, snd par)))"
  using assms by (simp add: handle_file_message_unfold Let_def case_prod_beta)

lemma file_failure:
  assumes chat: "(p, out) \<in> set (chats (new_actions s (snd (handle_file_message w u tok m k s))))"
      and fails: "chat_result out = Inl e"
  shows "user_sessions (snd (handle_file_message w u tok m k s)) = user_sessions s \<and>
         (\<exists>ok ok'. replies (new_actions s (snd (handle_file_message w u tok m k s))) =
                  (tok, apology_generic, ok) # (if ok then [] else [(tok, apology_file, ok')]))"
proof (cases "line_get_content w (trace s) m")
  case None
  with chat show ?thesis
    by (simp add: handle_file_message_unfold reply_text_eq trace_log new_actions_def calls_simps)
next
  case (Some content)
  define fn where "fn = m @ ascii ''.'' @ ext k"
  define uo where "uo = dify_upload w (trace (log (GetContent m (Some content)) s)) fn content u"
  define s2 where "s2 = log (Upload fn content u uo) (log (GetContent m (Some content)) s)"
  define q where "q = ascii ''['' @ k @ ascii '' uploaded]''"
  define c where "c = session_get s u"
  define par where "par = process_and_reply w tok q u c (upload_result uo) s2"
  define pl where "pl = chat_payload q u c (upload_result uo)"
  define co where "co = dify_chat w (trace s2) pl"
  have s2: "trace s2 = trace s @ [GetContent m (Some content), Upload fn content u uo]"
    "user_sessions s2 = user_sessions s"
    by (simp_all add: s2_def trace_log user_sessions_log)
  show ?thesis
  proof (cases "truthy (upload_result uo)")
    case False
    with Some chat show ?thesis
      by (auto simp: handle_file_message_unfold Let_def reply_text_eq trace_log
          new_actions_def calls_simps uo_def fn_def)
  next
    case True
    obtain xs ok ok' where xs:
      "trace (snd par) = trace s2 @ xs"
      "chats xs = [(pl, co)]"
      "user_sessions (snd par) =
         (case chat_result co of
            Inl e \<Rightarrow> user_sessions s2
          | Inr (ans, nc) \<Rightarrow>
              if truthy nc then (user_sessions s2)(u \<mapsto> nc) else user_sessions s2)"
      "replies xs =
         (case chat_result co of
            Inl e \<Rightarrow> [(tok, apology_generic, ok)]
          | Inr (ans, nc) \<Rightarrow> (tok, ans, ok) # (if ok then [] else [(tok, apology_generic, ok')]))"
      "fst par =
         (case chat_result co of
            Inl e \<Rightarrow> if ok then Inr () else Inl LineApiError
          | Inr (ans, nc) \<Rightarrow> if ok \<or> ok' then Inr () else Inl LineApiError)"
      unfolding par_def pl_def co_def by (rule process_and_reply_effect)
    have H: "handle_file_message w u tok m k s =
        (case fst par of Inl e \<Rightarrow> reply_text w tok apology_file (snd par)
         | Inr x \<Rightarrow> (Inr x, snd par))"
      using Some True
      unfolding par_def s2_def uo_def fn_def q_def c_def
      by (simp add: handle_file_message_forwarded Let_def)
    have tr: "\<exists>ys. new_actions s (snd (handle_file_message w u tok m k s)) =
        [GetContent m (Some content), Upload fn content u uo] @ xs @ ys \<and> chats ys = [] \<and>
        replies ys = (case fst par of Inl e \<Rightarrow>
           [(tok, apology_file, line_reply w (trace (snd par)) tok apology_file)] | Inr x \<Rightarrow> [])"
      by (cases "fst par")
        (simp_all add: H reply_text_eq trace_log new_actions_def xs(1) s2(1) calls_simps)
    then obtain ys where ys:
      "new_actions s (snd (handle_file_message w u tok m k s)) =
        [GetContent m (Some content), Upload fn content u uo] @ xs @ ys" "chats ys = []"
      "replies ys = (case fst par of Inl e \<Rightarrow>
           [(tok, apology_file, line_reply w (trace (snd par)) tok apology_file)] | Inr x \<Rightarrow> [])"
      by blast
    have "chats (new_actions s (snd (handle_file_message w u tok m k s))) = [(pl, co)]"
      by (simp add: ys(1,2) xs(2) calls_simps)
    with chat fails have failed: "chat_result co = Inl e"
      by simp
    have us: "user_sessions (snd (handle_file_message w u tok m k s)) = user_sessions (snd par)"
      by (cases "fst par") (simp_all add: H reply_text_eq user_sessions_log)
    have "replies (new_actions s (snd (handle_file_message w u tok m k s))) =
        (tok, apology_generic, ok) # (if ok then [] else
           [(tok, apology_file, line_reply w (trace (snd par)) tok apology_file)])"
      using failed by (simp add: ys(1,3) xs(4,5) calls_simps)
    moreover have "user_sessions (snd (handle_file_message w u tok m k s)) = user_sessions s"
      using failed by (simp add: us xs(3) s2(2))
    ultimately show ?thesis by blast
  qed
qed

lemma think_tags:
  "think_open = [60, 116, 104, 105, 110, 107, 62]"
  "think_close = [60, 47, 116, 104, 105, 110, 107, 62]"
  by (simp_all add: think_open_def think_close_def ascii_def)









lemma step_log:
  assumes "chats [a] = []" and "stores [a] = []"
  shows "step w s (log a s)"
  unfolding step_def using assms
  by (intro exI [of _ "[a]"]) (simp add: trace_log user_sessions_log)

lemma step_reply_text: "step w s (snd (reply_text w tok t s))"
  by (simp add: reply_text_eq step_log calls_simps)

lemma step_process_and_reply:
  "step w s (snd (process_and_reply w tok q u (session_get s u) f s))"
proof -
  let ?p = "chat_payload q u (session_get s u) f"
  let ?out = "dify_chat w (trace s) ?p"
  obtain xs ok ok' where xs:
    "trace (snd (process_and_reply w tok q u (session_get s u) f s)) = trace s @ xs"
    "chats xs = [(?p, ?out)]"
    "stores xs =
       (case chat_result ?out of
          Inl e \<Rightarrow> []
        | Inr (ans, nc) \<Rightarrow> if truthy nc then [(u, nc)] else [])"
    "user_sessions (snd (process_and_reply w tok q u (session_get s u) f s)) =
       (case chat_result ?out of
          Inl e \<Rightarrow> user_sessions s
        | Inr (ans, nc) \<Rightarrow> if truthy nc then (user_sessions s)(u \<mapsto> nc) else user_sessions s)"
    by (rule process_and_reply_effect)
  have st: "stores xs = (case returned_token ?out of None \<Rightarrow> [] | Some t \<Rightarrow> [(u, t)])"
    by (simp add: xs(3) returned_token_def split: sum.splits prod.splits)
  have us: "user_sessions (snd (process_and_reply w tok q u (session_get s u) f s)) =
      (case returned_token ?out of None \<Rightarrow> user_sessions s | Some t \<Rightarrow> (user_sessions s)(u \<mapsto> t))"
    by (simp add: xs(4) returned_token_def split: sum.splits prod.splits)
  show ?thesis
    unfolding step_def
    using xs(1,2) st us by blast
qed

lemma session_get_cong: "user_sessions s' = user_sessions s \<Longrightarrow> session_get s' u = session_get s u"
  by (simp add: session_get_def)

lemma steps_handle_text_message:
  "rtranclp (step w) s (snd (handle_text_message w u tok msg s))"
  unfolding handle_text_message_def Let_def
  by (rule r_into_rtranclp) (rule step_process_and_reply)

lemma steps_handle_file_message:
  "rtranclp (step w) s (snd (handle_file_message w u tok m k s))"
proof (cases "line_get_content w (trace s) m")
  case None
  have "step w s (log (GetContent m None) s)"
    by (rule step_log) (simp_all add: calls_simps)
  moreover have "step w (log (GetContent m None) s)
      (snd (reply_text w tok apology_file (log (GetContent m None) s)))"
    by (rule step_reply_text)
  ultimately have "rtranclp (step w) s
      (snd (reply_text w tok apology_file (log (GetContent m None) s)))"
    by (rule converse_rtranclp_into_rtranclp [OF _ r_into_rtranclp])
  then show ?thesis
    using None by (simp add: handle_file_message_unfold)
next
  case (Some content)
  define s1 where "s1 = log (GetContent m (Some content)) s"
  define fn where "fn = m @ ascii ''.'' @ ext k"
  define uo where "uo = dify_upload w (trace s1) fn content u"
  define s2 where "s2 = log (Upload fn content u uo) s1"
  define q where "q = ascii ''['' @ k @ ascii '' uploaded]''"
  define r3 where "r3 = (if truthy (upload_result uo)
      then process_and_reply w tok q u (session_get s u) (upload_result uo) s2
      else reply_text w tok apology_upload s2)"
  have H: "handle_file_message w u tok m k s =
      (case fst r3 of Inl e \<Rightarrow> reply_text w tok apology_file (snd r3) | Inr x \<Rightarrow> (Inr x, snd r3))"
    using Some
    unfolding r3_def q_def s2_def uo_def fn_def s1_def
    by (simp add: handle_file_message_unfold Let_def case_prod_beta)
  have 1: "step w s s1"
    unfolding s1_def by (rule step_log) (simp_all add: calls_simps)
  have 2: "step w s1 s2"
    unfolding s2_def by (rule step_log) (simp_all add: calls_simps)
  have "user_sessions s2 = user_sessions s"
    by (simp add: s2_def s1_def user_sessions_log)
  then have same: "session_get s u = session_get s2 u"
    by (simp add: session_get_def)
  have 3: "step w s2 (snd r3)"
  proof (cases "truthy (upload_result uo)")
    case True
    then have "r3 = process_and_reply w tok q u (session_get s2 u) (upload_result uo) s2"
      by (simp add: r3_def same)
    then show ?thesis
      by (simp only:) (rule step_process_and_reply)
  next
    case False
    then have "r3 = reply_text w tok apology_upload s2"
      by (simp add: r3_def)
    then show ?thesis
      by (simp only:) (rule step_reply_text)
  qed
  have 4: "rtranclp (step w) (snd r3) (snd (handle_file_message w u tok m k s))"
  proof (cases "fst r3")
    case (Inl e)
    then have "snd (handle_file_message w u tok m k s) =
        snd (reply_text w tok apology_file (snd r3))"
      by (simp add: H)
    then show ?thesis
      by (simp only:) (rule r_into_rtranclp, rule step_reply_text)
  next
    case (Inr x)
    then show ?thesis by (simp add: H)
  qed
  have "rtranclp (step w) s s2"
    using 1 2 by (rule converse_rtranclp_into_rtranclp [OF _ r_into_rtranclp])
  then have "rtranclp (step w) s (snd r3)"
    using 3 by (rule rtranclp.rtrancl_into_rtrancl)
  then show ?thesis
    using 4 by (rule rtranclp_trans)
qed

lemma steps_dispatch: "rtranclp (step w) s (snd (dispatch w ev s))"
  by (cases ev) (simp_all add: dispatch_def steps_handle_text_message steps_handle_file_message)

lemma steps_handle_events: "rtranclp (step w) s (snd (handle_events w evs s))"
proof (induction evs arbitrary: s)
  case Nil
  show ?case by simp
next
  case (Cons ev evs)
  obtain r s1 where d: "dispatch w ev s = (r, s1)"
    by (cases "dispatch w ev s")
  with steps_dispatch [of w s ev] have first: "rtranclp (step w) s s1"
    by simp
  show ?case
  proof (cases r)
    case (Inl e)
    with d first show ?thesis by simp
  next
    case (Inr x)
    with d have "handle_events w (ev # evs) s = handle_events w evs s1"
      by simp
    with Cons.IH [of s1] first show ?thesis
      by simp
  qed
qed

lemma steps_webhook_handle: "rtranclp (step w) s (snd (webhook_handle w b sg s))"
  by (simp add: webhook_handle_def steps_handle_events split: option.splits)

lemma steps_callback: "rtranclp (step w) s (snd (callback w req s))"
proof (cases "utf8_decode (body req)")
  case None
  then show ?thesis by (simp add: callback_def)
next
  case (Some b)
  obtain r s1 where h: "webhook_handle w b
      (case signature_header req of Some v \<Rightarrow> v | None \<Rightarrow> []) s = (r, s1)"
    by (cases "webhook_handle w b (case signature_header req of Some v \<Rightarrow> v | None \<Rightarrow> []) s")
  with steps_webhook_handle [of w s b "case signature_header req of Some v \<Rightarrow> v | None \<Rightarrow> []"]
  have "rtranclp (step w) s s1"
    by simp
  with Some h show ?thesis
    by (simp add: callback_def Let_def split: sum.splits exn.splits)
qed

lemma steps_serve: "rtranclp (step w) s (snd (serve w reqs s))"
proof (induction reqs arbitrary: s)
  case Nil
  show ?case by simp
next
  case (Cons req reqs)
  from steps_callback [of w s req] Cons.IH [of "snd (callback w req s)"]
  show ?case
    by (simp add: case_prod_beta Let_def)
qed

lemma chats_of_append: "chats_of u (xs @ ys) = chats_of u xs @ chats_of u ys"
  by (simp add: chats_of_def calls_simps)

lemma chain_append: "chain t (a @ b) = (chain t a \<and> chain (final_token t a) b)"
  by (induction a arbitrary: t) auto

lemma final_token_append: "final_token t (a @ b) = final_token (final_token t a) b"
  by (induction a arbitrary: t) auto

lemma sent_token_payload: "sent_token (chat_payload q u (session_get s u) f) = stored_token s u"
  by (simp add: sent_token_def chat_payload_fields(6) session_get_def stored_token_def
      split: option.splits)

lemma returned_token_truthy: "returned_token out = Some t \<Longrightarrow> truthy t"
  by (auto simp: returned_token_def split: sum.splits prod.splits if_splits)

lemma step_carries:
  assumes "step w s s'"
  shows "\<exists>ys. trace s' = trace s @ ys \<and> chain (stored_token s u) (chats_of u ys) \<and>
           stored_token s' u = final_token (stored_token s u) (chats_of u ys)"
proof -
  from assms obtain xs where tr: "trace s' = trace s @ xs"
    and alt: "(chats xs = [] \<and> stores xs = [] \<and> user_sessions s' = user_sessions s) \<or>
         (\<exists>v q f tr.
            chats xs = [(chat_payload q v (session_get s v) f,
                         dify_chat w tr (chat_payload q v (session_get s v) f))] \<and>
            stores xs =
              (case returned_token (dify_chat w tr (chat_payload q v (session_get s v) f)) of
                 None \<Rightarrow> [] | Some t \<Rightarrow> [(v, t)]) \<and>
            user_sessions s' =
              (case returned_token (dify_chat w tr (chat_payload q v (session_get s v) f)) of
                 None \<Rightarrow> user_sessions s | Some t \<Rightarrow> (user_sessions s)(v \<mapsto> t)))"
    unfolding step_def by blast
  from alt show ?thesis
  proof
    assume "chats xs = [] \<and> stores xs = [] \<and> user_sessions s' = user_sessions s"
    then have "chats_of u xs = []" "stored_token s' u = stored_token s u"
      by (simp_all add: chats_of_def stored_token_def)
    with tr show ?thesis by auto
  next
    assume "\<exists>v q f tr.
            chats xs = [(chat_payload q v (session_get s v) f,
                         dify_chat w tr (chat_payload q v (session_get s v) f))] \<and>
            stores xs =
              (case returned_token (dify_chat w tr (chat_payload q v (session_get s v) f)) of
                 None \<Rightarrow> [] | Some t \<Rightarrow> [(v, t)]) \<and>
            user_sessions s' =
              (case returned_token (dify_chat w tr (chat_payload q v (session_get s v) f)) of
                 None \<Rightarrow> user_sessions s | Some t \<Rightarrow> (user_sessions s)(v \<mapsto> t))"
    then obtain v q f tr' where
      ch: "chats xs = [(chat_payload q v (session_get s v) f,
                         dify_chat w tr' (chat_payload q v (session_get s v) f))]"
      and us: "user_sessions s' =
              (case returned_token (dify_chat w tr' (chat_payload q v (session_get s v) f)) of
                 None \<Rightarrow> user_sessions s | Some t \<Rightarrow> (user_sessions s)(v \<mapsto> t))"
      by blast
    define p where "p = chat_payload q v (session_get s v) f"
    define out where "out = dify_chat w tr' p"
    have ch': "chats xs = [(p, out)]"
      by (simp add: ch p_def out_def)
    have us': "user_sessions s' =
        (case returned_token out of None \<Rightarrow> user_sessions s | Some t \<Rightarrow> (user_sessions s)(v \<mapsto> t))"
      by (simp add: us p_def out_def)
    have usr: "dict_get p (ascii ''user'') = Some (PStr v)"
      by (simp add: p_def chat_payload_fields(4))
    show ?thesis
    proof (cases "v = u")
      case True
      have co: "chats_of u xs = [(p, out)]"
        by (simp add: chats_of_def ch' usr True)
      have sent: "sent_token p = stored_token s u"
        by (simp add: p_def True sent_token_payload)
      have "stored_token s' u = next_token (stored_token s u) out"
      proof (cases "returned_token out")
        case None
        then show ?thesis by (simp add: us' next_token_def stored_token_def)
      next
        case (Some t)
        with returned_token_truthy [OF Some] show ?thesis
          by (simp add: us' next_token_def stored_token_def True)
      qed
      with tr co sent show ?thesis by auto
    next
      case False
      then have co: "chats_of u xs = []"
        by (simp add: chats_of_def ch' usr)
      from False have "user_sessions s' u = user_sessions s u"
        by (simp add: us' split: option.splits)
      then have "stored_token s' u = stored_token s u"
        by (simp add: stored_token_def)
      with tr co show ?thesis by auto
    qed
  qed
qed

lemma steps_carries:
  assumes "rtranclp (step w) s s'"
  shows "\<exists>xs. trace s' = trace s @ xs \<and> chain (stored_token s u) (chats_of u xs) \<and>
           stored_token s' u = final_token (stored_token s u) (chats_of u xs)"
  using assms
proof (induction rule: rtranclp_induct)
  case base
  show ?case by (simp add: chats_of_def calls_simps)
next
  case (step s1 s2)
  from step.IH obtain xs where xs: "trace s1 = trace s @ xs"
    "chain (stored_token s u) (chats_of u xs)"
    "stored_token s1 u = final_token (stored_token s u) (chats_of u xs)"
    by blast
  from step_carries [OF step.hyps(2), of u] obtain ys where ys: "trace s2 = trace s1 @ ys"
    "chain (stored_token s1 u) (chats_of u ys)"
    "stored_token s2 u = final_token (stored_token s1 u) (chats_of u ys)"
    by blast
  from ys(2) xs(3) have c2: "chain (final_token (stored_token s u) (chats_of u xs)) (chats_of u ys)"
    by simp
  from ys(3) xs(3) have f2: "stored_token s2 u =
      final_token (final_token (stored_token s u) (chats_of u xs)) (chats_of u ys)"
    by simp
  show ?case
    by (rule exI [of _ "xs @ ys"])
      (simp add: xs(1,2) ys(1) c2 f2 chats_of_append chain_append final_token_append)
qed

lemma chain_first: "chain t cs \<Longrightarrow> cs \<noteq> [] \<Longrightarrow> sent_token (fst (cs ! 0)) = t"
  by (cases cs) auto

lemma chain_nth:
  "chain t cs \<Longrightarrow> Suc n < length cs \<Longrightarrow>
   sent_token (fst (cs ! Suc n)) = next_token (sent_token (fst (cs ! n))) (snd (cs ! n))"
proof (induction cs arbitrary: t n)
  case Nil
  then show ?case by simp
next
  case (Cons c cs)
  obtain p out where c: "c = (p, out)" by (cases c)
  from Cons.prems(1) have here: "sent_token p = t" and rest: "chain (next_token t out) cs"
    by (simp_all add: c)
  show ?case
  proof (cases n)
    case 0
    with Cons.prems(2) have "cs \<noteq> []" by auto
    from chain_first [OF rest this] here 0 show ?thesis
      by (simp add: c)
  next
    case (Suc m)
    with Cons.prems(2) have "Suc m < length cs" by simp
    from Cons.IH [OF rest this] Suc show ?thesis by simp
  qed
qed

lemma chat_result_replies:
  "chat_result reply_c1 = Inr (ascii ''hi'', PStr (ascii ''c1''))"
  "chat_result reply_none = Inr (ascii ''hi'', PStr [])"
  by (simp_all add: reply_c1_def reply_none_def chat_result_def http_json_def py_get_def
      dict_get_default_def py_strip_def py_isspace_def think_tags startswith_def ascii_def)

lemma fading_world_fields:
  "line_validate fading_world b sg = (sg = ascii ''sig'')"
  "line_parse fading_world b = Some [TextMessageEvent (ascii ''U1'') (ascii ''rt'') b]"
  "line_reply fading_world tr tok t = True"
  "dify_chat fading_world tr p = (if chats tr = [] then reply_c1 else reply_none)"
  by (simp_all add: fading_world_def good_world_def reply_c1_def reply_none_def)

lemma fading_text_event:
  "snd (callback fading_world (signed_request [b]) s) =
     snd (handle_text_message fading_world (ascii ''U1'') (ascii ''rt'') [unat b] s)"
  if "b < 128" for b :: "8 word"
proof -
  from that have "unat b < 128"
    by (simp add: word_less_nat_alt)
  then have "utf8_decode [b] = Some [unat b]"
    by (simp add: utf8_decode_def)
  then show ?thesis
    by (simp add: callback_def signed_request_def webhook_handle_def fading_world_fields
        dispatch_def split: prod.splits sum.splits exn.splits)
qed

lemma c1_nonempty: "ascii ''c1'' \<noteq> []"
  by (simp add: ascii_def)

lemma fading_run:
  "new_actions initial_state
     (snd (serve fading_world [signed_request [97], signed_request [98], signed_request [99]]
        initial_state)) =
   [ChatMessages (chat_payload [97] (ascii ''U1'') (PStr []) PNone) reply_c1,
    SessionSet (ascii ''U1'') (PStr (ascii ''c1'')),
    Reply (ascii ''rt'') (ascii ''hi'') True,
    ChatMessages (chat_payload [98] (ascii ''U1'') (PStr (ascii ''c1'')) PNone) reply_none,
    Reply (ascii ''rt'') (ascii ''hi'') True,
    ChatMessages (chat_payload [99] (ascii ''U1'') (PStr (ascii ''c1'')) PNone) reply_none,
    Reply (ascii ''rt'') (ascii ''hi'') True]"
  by (simp add: case_prod_beta Let_def fading_text_event handle_text_message_def
      process_and_reply_def call_dify_api_eq reply_text_eq fading_world_fields chat_result_replies
      session_get_def session_set_def log_def initial_state_def new_actions_def calls_simps
      c1_nonempty)


lemma requests_outcome_failures:
  "requests_outcome NoResponse = PostRaised"
  "400 \<le> st \<Longrightarrow> st < 600 \<Longrightarrow> requests_outcome (Response st b) = StatusRaised"
  by (simp_all add: requests_outcome_def)

lemma chat_result_failures:
  "chat_result PostRaised = Inl RequestsError"
  "chat_result StatusRaised = Inl HTTPStatusError"
  "chat_result BodyNotJson = Inl JSONDecodeError"
  by (simp_all add: chat_result_def http_json_def)

lemma upload_result_failures:
  "upload_result PostRaised = PNone"
  "upload_result StatusRaised = PNone"
  "upload_result BodyNotJson = PNone"
  by (simp_all add: upload_result_def http_json_def)

lemma outcome_503: "requests_outcome (Response 503 None) = StatusRaised"
  by (simp add: requests_outcome_def)

lemma outcome_300: "requests_outcome (Response 300 (Some j)) = Json j"
  by (simp add: requests_outcome_def)

lemma step_stores:
  assumes "step w s s'"
  shows "\<exists>xs. trace s' = trace s @ xs \<and>
           (\<forall>(u, v) \<in> set (stores xs). \<exists>p out. (p, out) \<in> set (chats xs) \<and>
               dict_get p (ascii ''user'') = Some (PStr u) \<and> returned_token out = Some v) \<and>
           (\<forall>u v. user_sessions s' u = Some v \<longrightarrow>
               user_sessions s u = Some v \<or> (u, v) \<in> set (stores xs))"
proof -
  from assms obtain xs where tr: "trace s' = trace s @ xs"
    and alt: "(chats xs = [] \<and> stores xs = [] \<and> user_sessions s' = user_sessions s) \<or>
         (\<exists>v q f tr.
            chats xs = [(chat_payload q v (session_get s v) f,
                         dify_chat w tr (chat_payload q v (session_get s v) f))] \<and>
            stores xs =
              (case returned_token (dify_chat w tr (chat_payload q v (session_get s v) f)) of
                 None \<Rightarrow> [] | Some t \<Rightarrow> [(v, t)]) \<and>
            user_sessions s' =
              (case returned_token (dify_chat w tr (chat_payload q v (session_get s v) f)) of
                 None \<Rightarrow> user_sessions s | Some t \<Rightarrow> (user_sessions s)(v \<mapsto> t)))"
    unfolding step_def by blast
  from alt show ?thesis
  proof
    assume "chats xs = [] \<and> stores xs = [] \<and> user_sessions s' = user_sessions s"
    with tr show ?thesis by auto
  next
    assume "\<exists>v q f tr.
            chats xs = [(chat_payload q v (session_get s v) f,
                         dify_chat w tr (chat_payload q v (session_get s v) f))] \<and>
            stores xs =
              (case returned_token (dify_chat w tr (chat_payload q v (session_get s v) f)) of
                 None \<Rightarrow> [] | Some t \<Rightarrow> [(v, t)]) \<and>
            user_sessions s' =
              (case returned_token (dify_chat w tr (chat_payload q v (session_get s v) f)) of
                 None \<Rightarrow> user_sessions s | Some t \<Rightarrow> (user_sessions s)(v \<mapsto> t))"
    then obtain v q f tr' where
      ch: "chats xs = [(chat_payload q v (session_get s v) f,
                         dify_chat w tr' (chat_payload q v (session_get s v) f))]"
      and st: "stores xs =
              (case returned_token (dify_chat w tr' (chat_payload q v (session_get s v) f)) of
                 None \<Rightarrow> [] | Some t \<Rightarrow> [(v, t)])"
      and us: "user_sessions s' =
              (case returned_token (dify_chat w tr' (chat_payload q v (session_get s v) f)) of
                 None \<Rightarrow> user_sessions s | Some t \<Rightarrow> (user_sessions s)(v \<mapsto> t))"
      by blast
    define p where "p = chat_payload q v (session_get s v) f"
    define out where "out = dify_chat w tr' p"
    have ch': "chats xs = [(p, out)]"
      by (simp add: ch p_def out_def)
    have st': "stores xs = (case returned_token out of None \<Rightarrow> [] | Some t \<Rightarrow> [(v, t)])"
      by (simp add: st p_def out_def)
    have us': "user_sessions s' =
        (case returned_token out of None \<Rightarrow> user_sessions s | Some t \<Rightarrow> (user_sessions s)(v \<mapsto> t))"
      by (simp add: us p_def out_def)
    have usr: "dict_get p (ascii ''user'') = Some (PStr v)"
      by (simp add: p_def chat_payload_fields(4))
    show ?thesis
    proof (cases "returned_token out")
      case None
      with tr st' us' show ?thesis by auto
    next
      case (Some t)
      with tr st' us' ch' usr show ?thesis
        by (intro exI [of _ xs]) (auto split: if_splits)
    qed
  qed
qed

lemma steps_stores:
  assumes "rtranclp (step w) s s'"
  shows "\<exists>xs. trace s' = trace s @ xs \<and>
           (\<forall>(u, v) \<in> set (stores xs). \<exists>p out. (p, out) \<in> set (chats xs) \<and>
               dict_get p (ascii ''user'') = Some (PStr u) \<and> returned_token out = Some v) \<and>
           (\<forall>u v. user_sessions s' u = Some v \<longrightarrow>
               user_sessions s u = Some v \<or> (u, v) \<in> set (stores xs))"
  using assms
proof (induction rule: rtranclp_induct)
  case base
  show ?case by (simp add: calls_simps)
next
  case (step s1 s2)
  from step.IH obtain xs where xs: "trace s1 = trace s @ xs"
    "\<forall>(u, v) \<in> set (stores xs). \<exists>p out. (p, out) \<in> set (chats xs) \<and>
        dict_get p (ascii ''user'') = Some (PStr u) \<and> returned_token out = Some v"
    "\<forall>u v. user_sessions s1 u = Some v \<longrightarrow>
        user_sessions s u = Some v \<or> (u, v) \<in> set (stores xs)"
    by blast
  from step_stores [OF step.hyps(2)] obtain ys where ys: "trace s2 = trace s1 @ ys"
    "\<forall>(u, v) \<in> set (stores ys). \<exists>p out. (p, out) \<in> set (chats ys) \<and>
        dict_get p (ascii ''user'') = Some (PStr u) \<and> returned_token out = Some v"
    "\<forall>u v. user_sessions s2 u = Some v \<longrightarrow>
        user_sessions s1 u = Some v \<or> (u, v) \<in> set (stores ys)"
    by blast
  have 1: "trace s2 = trace s @ (xs @ ys)"
    by (simp add: xs(1) ys(1))
  have 2: "\<forall>(u, v) \<in> set (stores (xs @ ys)). \<exists>p out. (p, out) \<in> set (chats (xs @ ys)) \<and>
        dict_get p (ascii ''user'') = Some (PStr u) \<and> returned_token out = Some v"
    using xs(2) ys(2) by (fastforce simp: calls_simps)
  have 3: "\<forall>u v. user_sessions s2 u = Some v \<longrightarrow>
        user_sessions s u = Some v \<or> (u, v) \<in> set (stores (xs @ ys))"
    using xs(3) ys(3) by (auto simp: calls_simps)
  from 1 2 3 show ?case by blast
qed

lemma process_and_reply_falsy_token:
  assumes "chat_result (dify_chat w (trace s) (chat_payload q u c f)) = Inr (ans, nc)"
      and "\<not> truthy nc"
  shows "user_sessions (snd (process_and_reply w tok q u c f s)) = user_sessions s \<and>
         stores (new_actions s (snd (process_and_reply w tok q u c f s))) = []"
proof -
  obtain xs ok ok' where xs:
    "trace (snd (process_and_reply w tok q u c f s)) = trace s @ xs"
    "stores xs =
       (case chat_result (dify_chat w (trace s) (chat_payload q u c f)) of
          Inl e \<Rightarrow> []
        | Inr (ans, nc) \<Rightarrow> if truthy nc then [(u, nc)] else [])"
    "user_sessions (snd (process_and_reply w tok q u c f s)) =
       (case chat_result (dify_chat w (trace s) (chat_payload q u c f)) of
          Inl e \<Rightarrow> user_sessions s
        | Inr (ans, nc) \<Rightarrow> if truthy nc then (user_sessions s)(u \<mapsto> nc) else user_sessions s)"
    by (rule process_and_reply_effect)
  from xs(1) have "new_actions s (snd (process_and_reply w tok q u c f s)) = xs"
    by (rule new_actions_append)
  with xs(2,3) assms show ?thesis
    by simp
qed

lemma fading_first:
  "snd (serve fading_world [signed_request [97]] initial_state) =
     \<lparr>user_sessions = (Map.empty)(ascii ''U1'' \<mapsto> PStr (ascii ''c1'')),
      trace = [ChatMessages (chat_payload [97] (ascii ''U1'') (PStr []) PNone) reply_c1,
               SessionSet (ascii ''U1'') (PStr (ascii ''c1'')),
               Reply (ascii ''rt'') (ascii ''hi'') True]\<rparr>"
  by (simp add: case_prod_beta Let_def fading_text_event handle_text_message_def
      process_and_reply_def call_dify_api_eq reply_text_eq fading_world_fields chat_result_replies
      session_get_def session_set_def log_def initial_state_def calls_simps c1_nonempty)






section \<open>The claims\<close>

text \<open>
  C8. For a media event with message identifier \<open>m\<close> and kind \<open>k\<close>, the file is uploaded
  under the name \<open>m\<close> + "." + \<open>ext k\<close>, where \<open>ext\<close> maps image to jpg, video to mp4, audio
  to m4a and anything else to bin. When the content could be fetched from the platform
  there is exactly one upload, of that content for that sender under that name; when it
  could not, nothing is uploaded.
\<close>

theorem upload_filename:
  "(case line_get_content w (trace s) m of
      None \<Rightarrow> uploads (new_actions s (snd (handle_file_message w u tok m k s))) = []
    | Some content \<Rightarrow>
        (\<exists>out. uploads (new_actions s (snd (handle_file_message w u tok m k s))) =
                  [(m @ ascii ''.'' @ ext k, content, u, out)]))"
proof (cases "line_get_content w (trace s) m")
  case None
  then show ?thesis
    by (simp add: handle_file_message_def Let_def reply_text_def trace_log new_actions_def
        calls_simps)
next
  case (Some content)
  let ?fn = "m @ ascii ''.'' @ ext k"
  let ?s1 = "log (GetContent m (Some content)) s"
  obtain fid s2 where up: "upload_file_to_dify w content ?fn u ?s1 = (fid, s2)"
    by (cases "upload_file_to_dify w content ?fn u ?s1")
  then have s2: "trace s2 = trace s @ [GetContent m (Some content),
      Upload ?fn content u (dify_upload w (trace ?s1) ?fn content u)]"
    by (auto simp: upload_file_to_dify_eq Let_def trace_log)
  show ?thesis
  proof (cases "truthy fid")
    case True
    obtain xs where xs:
      "trace (snd (process_and_reply w tok (ascii ''['' @ k @ ascii '' uploaded]'') u
         (session_get s u) fid s2)) = trace s2 @ xs" "uploads xs = []"
      using process_and_reply_uploads by blast
    show ?thesis
      using Some up True xs s2
      by (auto simp: handle_file_message_def Let_def extension_lookup reply_text_def trace_log
          new_actions_def calls_simps split: prod.splits sum.splits)
  next
    case False
    then show ?thesis
      using Some up s2
      by (auto simp: handle_file_message_def Let_def extension_lookup reply_text_def trace_log
          new_actions_def calls_simps split: prod.splits sum.splits)
  qed
qed

text \<open>
  C6. The JSON body that \<open>call_dify_api\<close> posts to the chat-messages endpoint has
  \<open>inputs\<close> = \<open>{}\<close>, the given \<open>query\<close>, \<open>response_mode\<close> = "blocking", \<open>user\<close> = the
  sender, and \<open>files\<close> = \<open>[]\<close> unless a file reference is given, in which case \<open>files\<close>
  is the one-element list \<open>{type: "image", transfer_method: "local_file", upload_file_id:
  fileReference}\<close>, with "image" whatever the media kind. The key \<open>conversation_id\<close> is
  present exactly when the continuation token is non-empty (true in Python's sense; for
  a string: not the empty string), and then holds the token. There are no other keys.
\<close>

theorem chat_payload_shape:
  "\<exists>p out. new_actions s (snd (call_dify_api w q u c f s)) = [ChatMessages p out] \<and>
     dict_get p (ascii ''inputs'') = Some (PDict []) \<and>
     dict_get p (ascii ''query'') = Some (PStr q) \<and>
     dict_get p (ascii ''response_mode'') = Some (PStr (ascii ''blocking'')) \<and>
     dict_get p (ascii ''user'') = Some (PStr u) \<and>
     dict_get p (ascii ''files'') =
       Some (if truthy f
             then PList [PDict [(ascii ''type'', PStr (ascii ''image'')),
                                (ascii ''transfer_method'', PStr (ascii ''local_file'')),
                                (ascii ''upload_file_id'', f)]]
             else PList []) \<and>
     dict_get p (ascii ''conversation_id'') = (if truthy c then Some c else None) \<and>
     map fst p =
       [ascii ''inputs'', ascii ''query'', ascii ''response_mode'', ascii ''user'', ascii ''files'']
       @ (if truthy c then [ascii ''conversation_id''] else [])"
proof -
  have "new_actions s (snd (call_dify_api w q u c f s)) =
      [ChatMessages (chat_payload q u c f) (dify_chat w (trace s) (chat_payload q u c f))]"
    by (simp add: call_dify_api_eq trace_log new_actions_def)
  then show ?thesis
    using chat_payload_fields [of q u c f] by blast
qed


text \<open>
  C2. In \<open>process_and_reply\<close>, when the forwarder fails, the failure is caught: the
  only further action is one reply with the fixed apology, the session map is untouched,
  and what leaves the function is the outcome of that reply, not the forwarder's error.
  When the forwarder succeeds, the session entry of the sender is written only if the
  new token is non-empty, and the write comes after the chat call and before the reply.
\<close>

theorem process_and_reply_order:
  "(case process_and_reply w tok q u c f s of (res, s') \<Rightarrow>
     (case chat_result (dify_chat w (trace s) (chat_payload q u c f)) of
        Inl e \<Rightarrow>
          (\<exists>ok. new_actions s s' =
               [ChatMessages (chat_payload q u c f) (dify_chat w (trace s) (chat_payload q u c f)),
                Reply tok apology_generic ok] \<and>
             res = (if ok then Inr () else Inl LineApiError)) \<and>
          user_sessions s' = user_sessions s
      | Inr (ans, nc) \<Rightarrow>
          (\<exists>ok ok'. new_actions s s' =
               [ChatMessages (chat_payload q u c f) (dify_chat w (trace s) (chat_payload q u c f))]
               @ (if truthy nc then [SessionSet u nc] else [])
               @ [Reply tok ans ok]
               @ (if ok then [] else [Reply tok apology_generic ok'])) \<and>
          user_sessions s' =
            (if truthy nc then (user_sessions s)(u \<mapsto> nc) else user_sessions s)))"
proof (cases "chat_result (dify_chat w (trace s) (chat_payload q u c f))")
  case (Inl e)
  then show ?thesis
    by (auto simp: process_and_reply_def call_dify_api_eq reply_text_eq trace_log
        user_sessions_log new_actions_def)
next
  case (Inr r)
  obtain ans nc where r: "r = (ans, nc)" by (cases r)
  show ?thesis
    using Inr unfolding r
    by (auto simp: process_and_reply_def call_dify_api_eq reply_text_eq trace_log
        user_sessions_log session_set_def log_def new_actions_def)
qed


text \<open>
  C4. For every event whose chat call fails, that is, \<open>call_dify_api\<close> raises, the
  session map is left exactly as it was and the reply issued in answer is the fixed
  apology. It is the only reply, except that a media event whose apology the platform
  rejects gets one more attempt, with the file-processing apology. The call fails when
  there is no response and when the status is 400 to 599 (and when the response cannot
  be used). As stated, for every non-2xx status and with the fixed apology as the reply
  the user gets, the claim fails: a response with status 300 and a JSON body is relayed
  like any answer and its conversation id stored; and for a media event with the chat
  endpoint down, the first reply rejected and the second accepted, the reply that goes
  through is the file-processing apology.
\<close>

theorem backend_failure_apology:
  assumes "(p, out) \<in> set (chats (new_actions s (snd (dispatch w ev s))))"
      and "chat_result out = Inl e"
  shows "user_sessions (snd (dispatch w ev s)) = user_sessions s \<and>
         (\<exists>ok ok'. replies (new_actions s (snd (dispatch w ev s))) =
            (reply_token ev, apology_generic, ok)
            # (if ok \<or> \<not> is_file_event ev then [] else [(reply_token ev, apology_file, ok')])) \<and>
         chat_result (requests_outcome NoResponse) = Inl RequestsError \<and>
         (\<forall>st b. 400 \<le> st \<and> st < 600 \<longrightarrow>
            chat_result (requests_outcome (Response st b)) = Inl HTTPStatusError)"
proof (cases ev)
  case (TextMessageEvent u tok msg)
  with assms(1) have "(p, out) \<in> set (chats (new_actions s (snd (handle_text_message w u tok msg s))))"
    by (simp add: dispatch_def)
  from text_failure [OF this assms(2)] obtain ok where
    "user_sessions (snd (handle_text_message w u tok msg s)) = user_sessions s"
    "replies (new_actions s (snd (handle_text_message w u tok msg s))) =
       [(tok, apology_generic, ok)]"
    by blast
  then show ?thesis
    unfolding TextMessageEvent
    by (intro conjI exI [of _ ok])
      (simp_all add: dispatch_def requests_outcome_failures chat_result_failures)
next
  case (FileMessageEvent u tok m k)
  with assms(1) have "(p, out) \<in> set (chats (new_actions s (snd (handle_file_message w u tok m k s))))"
    by (simp add: dispatch_def)
  from file_failure [OF this assms(2)] obtain ok ok' where
    "user_sessions (snd (handle_file_message w u tok m k s)) = user_sessions s"
    "replies (new_actions s (snd (handle_file_message w u tok m k s))) =
       (tok, apology_generic, ok) # (if ok then [] else [(tok, apology_file, ok')])"
    by blast
  then show ?thesis
    unfolding FileMessageEvent
    by (intro conjI exI [of _ ok] exI [of _ ok'])
      (simp_all add: dispatch_def requests_outcome_failures chat_result_failures)
next
  case UnhandledEvent
  with assms(1) show ?thesis
    by (simp add: dispatch_def new_actions_def calls_simps)
qed

theorem backend_failure_apology_witness:
  "(chat_payload (ascii ''hello'') (ascii ''U1'') (PStr []) PNone,
    requests_outcome (Response 503 None))
     \<in> set (chats (new_actions initial_state
          (snd (dispatch chat_down_world
             (TextMessageEvent (ascii ''U1'') (ascii ''rt'') (ascii ''hello'')) initial_state)))) \<and>
   chat_result (requests_outcome (Response 503 None)) = Inl HTTPStatusError \<and>
   (400::nat) \<le> 503 \<and> (503::nat) < 600 \<and>
   user_sessions (snd (dispatch chat_down_world
      (TextMessageEvent (ascii ''U1'') (ascii ''rt'') (ascii ''hello'')) initial_state)) =
     user_sessions initial_state \<and>
   replies (new_actions initial_state (snd (dispatch chat_down_world
      (TextMessageEvent (ascii ''U1'') (ascii ''rt'') (ascii ''hello'')) initial_state))) =
     [(ascii ''rt'', apology_generic, True)]"
proof -
  let ?ev = "TextMessageEvent (ascii ''U1'') (ascii ''rt'') (ascii ''hello'')"
  have run: "new_actions initial_state (snd (dispatch chat_down_world ?ev initial_state)) =
      [ChatMessages (chat_payload (ascii ''hello'') (ascii ''U1'') (PStr []) PNone)
         (requests_outcome (Response 503 None)),
       Reply (ascii ''rt'') apology_generic True]"
    by (simp add: dispatch_def handle_text_message_def process_and_reply_def call_dify_api_eq
        reply_text_eq chat_result_def http_json_def session_get_def initial_state_def
        trace_log new_actions_def chat_down_world_def good_world_def outcome_503)
  have h1: "(chat_payload (ascii ''hello'') (ascii ''U1'') (PStr []) PNone,
      requests_outcome (Response 503 None))
     \<in> set (chats (new_actions initial_state (snd (dispatch chat_down_world ?ev initial_state))))"
    by (simp only: run) (simp add: calls_simps)
  have h2: "chat_result (requests_outcome (Response 503 None)) = Inl HTTPStatusError"
    by (simp add: outcome_503 chat_result_failures)
  from backend_failure_apology [OF h1 h2] h1 h2 show ?thesis
    by (simp add: run calls_simps)
qed

theorem backend_failure_apology_as_stated_counterexample:
  "chats (new_actions initial_state (snd (dispatch redirect_chat_world
      (TextMessageEvent (ascii ''U1'') (ascii ''rt'') (ascii ''hello'')) initial_state))) =
     [(chat_payload (ascii ''hello'') (ascii ''U1'') (PStr []) PNone,
       requests_outcome (Response 300
         (Some (PDict [(ascii ''answer'', PStr (ascii ''x'')),
                       (ascii ''conversation_id'', PStr (ascii ''c''))]))))] \<and>
   replies (new_actions initial_state (snd (dispatch redirect_chat_world
      (TextMessageEvent (ascii ''U1'') (ascii ''rt'') (ascii ''hello'')) initial_state))) =
     [(ascii ''rt'', ascii ''x'', True)] \<and>
   ascii ''x'' \<noteq> apology_generic \<and>
   user_sessions initial_state (ascii ''U1'') = None \<and>
   user_sessions (snd (dispatch redirect_chat_world
      (TextMessageEvent (ascii ''U1'') (ascii ''rt'') (ascii ''hello'')) initial_state))
     (ascii ''U1'') = Some (PStr (ascii ''c'')) \<and>
   chats (new_actions initial_state (snd (dispatch chat_down_retry_world
      (FileMessageEvent (ascii ''U1'') (ascii ''rt'') (ascii ''m1'') (ascii ''image''))
      initial_state))) =
     [(chat_payload (ascii ''[image uploaded]'') (ascii ''U1'') (PStr []) (PStr (ascii ''f1'')),
       requests_outcome (Response 503 None))] \<and>
   replies (new_actions initial_state (snd (dispatch chat_down_retry_world
      (FileMessageEvent (ascii ''U1'') (ascii ''rt'') (ascii ''m1'') (ascii ''image''))
      initial_state))) =
     [(ascii ''rt'', apology_generic, False), (ascii ''rt'', apology_file, True)] \<and>
   apology_file \<noteq> apology_generic"
proof -
  let ?tev = "TextMessageEvent (ascii ''U1'') (ascii ''rt'') (ascii ''hello'')"
  let ?fev = "FileMessageEvent (ascii ''U1'') (ascii ''rt'') (ascii ''m1'') (ascii ''image'')"
  let ?j = "PDict [(ascii ''answer'', PStr (ascii ''x'')),
                   (ascii ''conversation_id'', PStr (ascii ''c''))]"
  have cr: "chat_result (Json ?j) = Inr (ascii ''x'', PStr (ascii ''c''))"
    by (simp add: chat_result_def http_json_def py_get_def dict_get_default_def py_strip_def
        py_isspace_def think_tags startswith_def ascii_def)
  have c_ne: "ascii ''c'' \<noteq> []" "ascii ''f1'' \<noteq> []"
    by (simp_all add: ascii_def)
  have trun: "snd (dispatch redirect_chat_world ?tev initial_state) =
      \<lparr>user_sessions = (Map.empty)(ascii ''U1'' \<mapsto> PStr (ascii ''c'')),
       trace = [ChatMessages (chat_payload (ascii ''hello'') (ascii ''U1'') (PStr []) PNone)
                  (requests_outcome (Response 300 (Some ?j))),
                SessionSet (ascii ''U1'') (PStr (ascii ''c'')),
                Reply (ascii ''rt'') (ascii ''x'') True]\<rparr>"
    by (simp add: dispatch_def handle_text_message_def process_and_reply_def call_dify_api_eq
        reply_text_eq cr c_ne session_get_def session_set_def log_def initial_state_def
        redirect_chat_world_def good_world_def outcome_300)
  have frun: "new_actions initial_state (snd (dispatch chat_down_retry_world ?fev initial_state)) =
      [GetContent (ascii ''m1'') (Some [1, 2, 3]),
       Upload (ascii ''m1.jpg'') [1, 2, 3] (ascii ''U1'')
         (Json (PDict [(ascii ''id'', PStr (ascii ''f1''))])),
       ChatMessages (chat_payload (ascii ''[image uploaded]'') (ascii ''U1'') (PStr [])
                       (PStr (ascii ''f1''))) (requests_outcome (Response 503 None)),
       Reply (ascii ''rt'') apology_generic False,
       Reply (ascii ''rt'') apology_file True]"
    by (simp add: dispatch_def handle_file_message_unfold Let_def process_and_reply_def
        call_dify_api_eq reply_text_eq chat_result_failures upload_result_def http_json_def
        py_get_def dict_get_default_def session_get_def log_def initial_state_def
        new_actions_def calls_simps chat_down_retry_world_def good_world_def outcome_503
        ext_def ascii_def)
  have t0: "trace initial_state = []" "user_sessions initial_state (ascii ''U1'') = None"
    by (simp_all add: initial_state_def)
  have tnew: "new_actions initial_state (snd (dispatch redirect_chat_world ?tev initial_state)) =
      [ChatMessages (chat_payload (ascii ''hello'') (ascii ''U1'') (PStr []) PNone)
         (requests_outcome (Response 300 (Some ?j))),
       SessionSet (ascii ''U1'') (PStr (ascii ''c'')),
       Reply (ascii ''rt'') (ascii ''x'') True]"
    by (simp only: trun) (simp add: new_actions_def t0)
  have tus: "user_sessions (snd (dispatch redirect_chat_world ?tev initial_state)) (ascii ''U1'') =
      Some (PStr (ascii ''c''))"
    by (simp only: trun) simp
  have xne: "ascii ''x'' \<noteq> apology_generic"
    by (simp add: ascii_def apology_generic_def)
  show ?thesis
    by (simp only: tnew frun tus t0) (simp add: calls_simps apologies_distinct xne)
qed

text \<open>
  C5. For a media event whose upload fails (no response, or a status from 400 to 599),
  no chat call is made, and the reply issued is the upload apology, not the generic one.
  It is the only reply unless the platform rejects it; then one more is attempted, with
  the file-processing apology, which is not the generic one either. As stated, for every
  non-2xx status and with the upload apology as the reply the user gets, the claim
  fails: an upload answered with status 300 and a JSON body holding an \<open>id\<close> is taken
  as done and the query is forwarded; and with the upload endpoint down, the first reply
  rejected and the second accepted, the reply that goes through is the file-processing
  apology.
\<close>

theorem upload_failure_apology:
  assumes "(fn, c, v, requests_outcome r)
             \<in> set (uploads (new_actions s (snd (handle_file_message w u tok m k s))))"
      and "case r of NoResponse \<Rightarrow> True | Response st b \<Rightarrow> 400 \<le> st \<and> st < 600"
  shows "chats (new_actions s (snd (handle_file_message w u tok m k s))) = [] \<and>
         (\<exists>ok ok'. replies (new_actions s (snd (handle_file_message w u tok m k s))) =
            (tok, apology_upload, ok) # (if ok then [] else [(tok, apology_file, ok')])) \<and>
         apology_upload \<noteq> apology_generic \<and> apology_file \<noteq> apology_generic"
proof -
  from assms(2) have "requests_outcome r = PostRaised \<or> requests_outcome r = StatusRaised"
    by (cases r) (simp_all add: requests_outcome_def)
  then have "\<not> truthy (upload_result (requests_outcome r))"
    by (auto simp: upload_result_failures)
  from file_upload_falsy [OF assms(1) this] show ?thesis
    by (simp add: apologies_distinct)
qed

theorem upload_failure_apology_witness:
  "(ascii ''m1.mp4'', [1, 2, 3], ascii ''U1'', requests_outcome (Response 503 None))
     \<in> set (uploads (new_actions initial_state
          (snd (handle_file_message upload_down_world (ascii ''U1'') (ascii ''rt'') (ascii ''m1'')
                  (ascii ''video'') initial_state)))) \<and>
   (case Response 503 None of NoResponse \<Rightarrow> True | Response st b \<Rightarrow> 400 \<le> st \<and> st < 600) \<and>
   chats (new_actions initial_state
          (snd (handle_file_message upload_down_world (ascii ''U1'') (ascii ''rt'') (ascii ''m1'')
                  (ascii ''video'') initial_state))) = [] \<and>
   replies (new_actions initial_state
          (snd (handle_file_message upload_down_world (ascii ''U1'') (ascii ''rt'') (ascii ''m1'')
                  (ascii ''video'') initial_state))) = [(ascii ''rt'', apology_upload, True)]"
proof -
  have run: "new_actions initial_state
          (snd (handle_file_message upload_down_world (ascii ''U1'') (ascii ''rt'') (ascii ''m1'')
                  (ascii ''video'') initial_state)) =
      [GetContent (ascii ''m1'') (Some [1, 2, 3]),
       Upload (ascii ''m1.mp4'') [1, 2, 3] (ascii ''U1'') (requests_outcome (Response 503 None)),
       Reply (ascii ''rt'') apology_upload True]"
    by (simp add: handle_file_message_unfold Let_def reply_text_eq upload_result_failures
        initial_state_def trace_log new_actions_def upload_down_world_def good_world_def
        outcome_503 ext_def ascii_def)
  have h1: "(ascii ''m1.mp4'', [1, 2, 3], ascii ''U1'', requests_outcome (Response 503 None))
     \<in> set (uploads (new_actions initial_state
          (snd (handle_file_message upload_down_world (ascii ''U1'') (ascii ''rt'') (ascii ''m1'')
                  (ascii ''video'') initial_state))))"
    by (simp only: run) (simp add: calls_simps)
  have h2: "case Response 503 None of NoResponse \<Rightarrow> True | Response st b \<Rightarrow> 400 \<le> st \<and> st < 600"
    by simp
  from upload_failure_apology [OF h1 h2] h1 h2 show ?thesis
    by (simp add: run calls_simps)
qed

theorem upload_failure_apology_as_stated_counterexample:
  "uploads (new_actions initial_state
      (snd (handle_file_message redirect_upload_world (ascii ''U1'') (ascii ''rt'') (ascii ''m1'')
              (ascii ''image'') initial_state))) =
     [(ascii ''m1.jpg'', [1, 2, 3], ascii ''U1'',
       requests_outcome (Response 300 (Some (PDict [(ascii ''id'', PStr (ascii ''f1''))]))))] \<and>
   chats (new_actions initial_state
      (snd (handle_file_message redirect_upload_world (ascii ''U1'') (ascii ''rt'') (ascii ''m1'')
              (ascii ''image'') initial_state))) =
     [(chat_payload (ascii ''[image uploaded]'') (ascii ''U1'') (PStr []) (PStr (ascii ''f1'')),
       reply_c1)] \<and>
   replies (new_actions initial_state
      (snd (handle_file_message redirect_upload_world (ascii ''U1'') (ascii ''rt'') (ascii ''m1'')
              (ascii ''image'') initial_state))) =
     [(ascii ''rt'', ascii ''hi'', True)] \<and>
   ascii ''hi'' \<noteq> apology_upload \<and>
   uploads (new_actions initial_state
      (snd (handle_file_message upload_down_retry_world (ascii ''U1'') (ascii ''rt'') (ascii ''m1'')
              (ascii ''image'') initial_state))) =
     [(ascii ''m1.jpg'', [1, 2, 3], ascii ''U1'', requests_outcome (Response 503 None))] \<and>
   replies (new_actions initial_state
      (snd (handle_file_message upload_down_retry_world (ascii ''U1'') (ascii ''rt'') (ascii ''m1'')
              (ascii ''image'') initial_state))) =
     [(ascii ''rt'', apology_upload, False), (ascii ''rt'', apology_file, True)] \<and>
   apology_file \<noteq> apology_upload"
proof -
  have names: "ascii ''m1'' @ ascii ''.'' @ ext (ascii ''image'') = ascii ''m1.jpg''"
    "ascii ''['' @ ascii ''image'' @ ascii '' uploaded]'' = ascii ''[image uploaded]''"
    by (simp_all add: ext_def ascii_def)
  have ne: "ascii ''c1'' \<noteq> []" "ascii ''f1'' \<noteq> []"
    by (simp_all add: ascii_def)
  have w1: "line_get_content redirect_upload_world tr m = Some [1, 2, 3]"
    "dify_upload redirect_upload_world tr fn c u =
       requests_outcome (Response 300 (Some (PDict [(ascii ''id'', PStr (ascii ''f1''))])))"
    "dify_chat redirect_upload_world tr p = reply_c1"
    "line_reply redirect_upload_world tr tok t = True" for tr m fn c u p tok t
    by (simp_all add: redirect_upload_world_def good_world_def reply_c1_def)
  have w2: "line_get_content upload_down_retry_world tr m = Some [1, 2, 3]"
    "dify_upload upload_down_retry_world tr fn c u = requests_outcome (Response 503 None)"
    "line_reply upload_down_retry_world tr tok t = (replies tr \<noteq> [])" for tr m fn c u tok t
    by (simp_all add: upload_down_retry_world_def good_world_def)
  have up: "upload_result (requests_outcome
      (Response 300 (Some (PDict [(ascii ''id'', PStr (ascii ''f1''))])))) = PStr (ascii ''f1'')"
    by (simp add: outcome_300 upload_result_def http_json_def py_get_def dict_get_default_def)
  have down: "upload_result (requests_outcome (Response 503 None)) = PNone"
    by (simp add: outcome_503 upload_result_failures)
  have run1: "new_actions initial_state
      (snd (handle_file_message redirect_upload_world (ascii ''U1'') (ascii ''rt'') (ascii ''m1'')
              (ascii ''image'') initial_state)) =
      [GetContent (ascii ''m1'') (Some [1, 2, 3]),
       Upload (ascii ''m1.jpg'') [1, 2, 3] (ascii ''U1'')
         (requests_outcome (Response 300 (Some (PDict [(ascii ''id'', PStr (ascii ''f1''))])))),
       ChatMessages (chat_payload (ascii ''[image uploaded]'') (ascii ''U1'') (PStr [])
                       (PStr (ascii ''f1''))) reply_c1,
       SessionSet (ascii ''U1'') (PStr (ascii ''c1'')),
       Reply (ascii ''rt'') (ascii ''hi'') True]"
    by (simp add: handle_file_message_unfold Let_def process_and_reply_def call_dify_api_eq w1
        reply_text_eq chat_result_replies up ne names session_get_def session_set_def log_def
        initial_state_def new_actions_def)
  have run2: "new_actions initial_state
      (snd (handle_file_message upload_down_retry_world (ascii ''U1'') (ascii ''rt'') (ascii ''m1'')
              (ascii ''image'') initial_state)) =
      [GetContent (ascii ''m1'') (Some [1, 2, 3]),
       Upload (ascii ''m1.jpg'') [1, 2, 3] (ascii ''U1'') (requests_outcome (Response 503 None)),
       Reply (ascii ''rt'') apology_upload False,
       Reply (ascii ''rt'') apology_file True]"
    by (simp add: handle_file_message_unfold Let_def reply_text_eq w2 down names
        log_def initial_state_def new_actions_def calls_simps)
  have hne: "ascii ''hi'' \<noteq> apology_upload"
    by (simp add: ascii_def apology_upload_def)
  show ?thesis
    by (simp only: run1 run2) (simp add: calls_simps hne apologies_distinct [symmetric])
qed

text \<open>
  C10. When the upload call succeeds but the JSON object it returns has no \<open>id\<close>, or an
  \<open>id\<close> that is empty or null, \<open>upload_file_to_dify\<close> returns a falsy value and the
  event goes the way of a failed upload: no chat call, and the upload apology as reply.
\<close>

theorem upload_without_id:
  assumes "(fn, c, v, Json (PDict d))
             \<in> set (uploads (new_actions s (snd (handle_file_message w u tok m k s))))"
      and "case dict_get d (ascii ''id'') of None \<Rightarrow> True | Some i \<Rightarrow> \<not> truthy i"
  shows "\<not> truthy (upload_result (Json (PDict d))) \<and>
         chats (new_actions s (snd (handle_file_message w u tok m k s))) = [] \<and>
         (\<exists>ok ok'. replies (new_actions s (snd (handle_file_message w u tok m k s))) =
            (tok, apology_upload, ok) # (if ok then [] else [(tok, apology_file, ok')])) \<and>
         apology_upload \<noteq> apology_generic \<and> apology_file \<noteq> apology_generic"
proof -
  from assms(2) have falsy: "\<not> truthy (upload_result (Json (PDict d)))"
    by (auto simp: upload_result_def http_json_def py_get_def dict_get_default_def
        split: option.splits)
  from file_upload_falsy [OF assms(1) this] falsy show ?thesis
    by (simp add: apologies_distinct)
qed

theorem upload_without_id_witness:
  "(ascii ''m1.jpg'', [1, 2, 3], ascii ''U1'', Json (PDict []))
     \<in> set (uploads (new_actions initial_state
          (snd (handle_file_message upload_no_id_world (ascii ''U1'') (ascii ''rt'') (ascii ''m1'')
                  (ascii ''image'') initial_state)))) \<and>
   (case dict_get ([] :: (pystr \<times> pyval) list) (ascii ''id'') of None \<Rightarrow> True | Some i \<Rightarrow> \<not> truthy i) \<and>
   chats (new_actions initial_state
          (snd (handle_file_message upload_no_id_world (ascii ''U1'') (ascii ''rt'') (ascii ''m1'')
                  (ascii ''image'') initial_state))) = [] \<and>
   replies (new_actions initial_state
          (snd (handle_file_message upload_no_id_world (ascii ''U1'') (ascii ''rt'') (ascii ''m1'')
                  (ascii ''image'') initial_state))) = [(ascii ''rt'', apology_upload, True)]"
proof -
  have run: "new_actions initial_state
          (snd (handle_file_message upload_no_id_world (ascii ''U1'') (ascii ''rt'') (ascii ''m1'')
                  (ascii ''image'') initial_state)) =
      [GetContent (ascii ''m1'') (Some [1, 2, 3]),
       Upload (ascii ''m1.jpg'') [1, 2, 3] (ascii ''U1'') (Json (PDict [])),
       Reply (ascii ''rt'') apology_upload True]"
    by (simp add: handle_file_message_unfold Let_def reply_text_eq upload_result_def http_json_def
        py_get_def dict_get_default_def
        initial_state_def trace_log new_actions_def upload_no_id_world_def good_world_def
        ext_def ascii_def)
  have h1: "(ascii ''m1.jpg'', [1, 2, 3], ascii ''U1'', Json (PDict []))
     \<in> set (uploads (new_actions initial_state
          (snd (handle_file_message upload_no_id_world (ascii ''U1'') (ascii ''rt'') (ascii ''m1'')
                  (ascii ''image'') initial_state))))"
    by (simp add: run calls_simps)
  have h2: "case dict_get ([] :: (pystr \<times> pyval) list) (ascii ''id'') of None \<Rightarrow> True | Some i \<Rightarrow> \<not> truthy i"
    by simp
  from upload_without_id [OF h1 h2] h1 show ?thesis
    by (simp add: run calls_simps)
qed






text \<open>
  C1. Over any run of the server, take the chat calls made for one sender, in order.
  The token sent with call \<open>n + 1\<close> is the conversation id returned by call \<open>n\<close> when
  that call succeeded and returned a non-empty one; otherwise it is the token that was
  sent with call \<open>n\<close>, absent only if that was absent. The first call carries what the
  session map held for the sender at the start. As stated, with the token absent after
  a call that returned none, the claim fails: of three messages of one sender, answered
  with the ids \<open>c1\<close>, empty, empty, the third is sent with \<open>c1\<close>.
\<close>

theorem session_continuity:
  assumes "Suc n < length (chats_of u (new_actions s (snd (serve w reqs s))))"
  shows "sent_token (fst (chats_of u (new_actions s (snd (serve w reqs s))) ! Suc n)) =
           next_token (sent_token (fst (chats_of u (new_actions s (snd (serve w reqs s))) ! n)))
             (snd (chats_of u (new_actions s (snd (serve w reqs s))) ! n)) \<and>
         sent_token (fst (chats_of u (new_actions s (snd (serve w reqs s))) ! 0)) =
           stored_token s u"
proof -
  have "rtranclp (step w) s (snd (serve w reqs s))"
    by (rule steps_serve)
  from steps_carries [OF this] obtain xs where
    xs: "trace (snd (serve w reqs s)) = trace s @ xs"
    and ch: "chain (stored_token s u) (chats_of u xs)"
    by blast
  from xs have new: "new_actions s (snd (serve w reqs s)) = xs"
    by (rule new_actions_append)
  from assms have ne: "chats_of u xs \<noteq> []"
    by (auto simp: new)
  from chain_nth [OF ch] chain_first [OF ch ne] assms show ?thesis
    by (simp add: new)
qed

theorem session_continuity_witness:
  "Suc 1 < length (chats_of (ascii ''U1'') (new_actions initial_state
      (snd (serve fading_world [signed_request [97], signed_request [98], signed_request [99]]
         initial_state)))) \<and>
   sent_token (fst (chats_of (ascii ''U1'') (new_actions initial_state
      (snd (serve fading_world [signed_request [97], signed_request [98], signed_request [99]]
         initial_state))) ! Suc 1)) =
     next_token (Some (PStr (ascii ''c1''))) reply_none \<and>
   next_token (Some (PStr (ascii ''c1''))) reply_none = Some (PStr (ascii ''c1'')) \<and>
   sent_token (fst (chats_of (ascii ''U1'') (new_actions initial_state
      (snd (serve fading_world [signed_request [97], signed_request [98], signed_request [99]]
         initial_state))) ! 0)) = stored_token initial_state (ascii ''U1'') \<and>
   stored_token initial_state (ascii ''U1'') = None"
proof -
  let ?fs = "chats_of (ascii ''U1'') (new_actions initial_state
      (snd (serve fading_world [signed_request [97], signed_request [98], signed_request [99]]
         initial_state)))"
  have fs: "?fs =
      [(chat_payload [97] (ascii ''U1'') (PStr []) PNone, reply_c1),
       (chat_payload [98] (ascii ''U1'') (PStr (ascii ''c1'')) PNone, reply_none),
       (chat_payload [99] (ascii ''U1'') (PStr (ascii ''c1'')) PNone, reply_none)]"
    by (simp only: fading_run) (simp add: chats_of_def calls_simps chat_payload_fields(4))
  have h: "Suc 1 < length ?fs"
    by (simp only: fs) simp
  have s1: "sent_token (fst (?fs ! 1)) = Some (PStr (ascii ''c1''))"
    by (simp only: fs) (simp add: sent_token_def chat_payload_fields(6) c1_nonempty)
  have o1: "snd (?fs ! 1) = reply_none"
    by (simp only: fs) simp
  have nt: "next_token (Some (PStr (ascii ''c1''))) reply_none = Some (PStr (ascii ''c1''))"
    by (simp add: next_token_def returned_token_def chat_result_replies)
  have st: "stored_token initial_state (ascii ''U1'') = None"
    by (simp add: stored_token_def initial_state_def)
  from session_continuity [OF h] h show ?thesis
    by (simp only: s1 o1 nt st simp_thms)
qed

theorem session_continuity_as_stated_counterexample:
  "length (chats_of (ascii ''U1'') (new_actions initial_state
      (snd (serve fading_world [signed_request [97], signed_request [98], signed_request [99]]
         initial_state)))) = 3 \<and>
   returned_token (snd (chats_of (ascii ''U1'') (new_actions initial_state
      (snd (serve fading_world [signed_request [97], signed_request [98], signed_request [99]]
         initial_state))) ! 1)) = None \<and>
   sent_token (fst (chats_of (ascii ''U1'') (new_actions initial_state
      (snd (serve fading_world [signed_request [97], signed_request [98], signed_request [99]]
         initial_state))) ! 2)) = Some (PStr (ascii ''c1''))"
proof -
  let ?fs = "chats_of (ascii ''U1'') (new_actions initial_state
      (snd (serve fading_world [signed_request [97], signed_request [98], signed_request [99]]
         initial_state)))"
  have fs: "?fs =
      [(chat_payload [97] (ascii ''U1'') (PStr []) PNone, reply_c1),
       (chat_payload [98] (ascii ''U1'') (PStr (ascii ''c1'')) PNone, reply_none),
       (chat_payload [99] (ascii ''U1'') (PStr (ascii ''c1'')) PNone, reply_none)]"
    by (simp only: fading_run) (simp add: chats_of_def calls_simps chat_payload_fields(4))
  show ?thesis
    by (simp only: fs)
      (simp add: returned_token_def chat_result_replies sent_token_def
        chat_payload_fields(6) c1_nonempty)
qed


text \<open>
  C9. Invariant of the session map: every value stored in it is non-empty in Python's
  sense, so a non-empty string whenever it is a string, and it is a conversation id that
  a successful chat call for that sender returned; a conversation id that is empty,
  null or missing never creates an entry and never overwrites one. As stated, with
  every stored value a string, the claim fails: a response whose conversation id is the
  number 5 has that number stored.
\<close>

theorem session_store_invariant:
  assumes "\<forall>v \<in> ran (user_sessions s). truthy v"
  shows "(\<forall>v \<in> ran (user_sessions (snd (serve w reqs s))). truthy v) \<and>
         (\<forall>(u, v) \<in> set (stores (new_actions s (snd (serve w reqs s)))).
             truthy v \<and> (is_str v \<longrightarrow> v \<noteq> PStr []) \<and>
             (\<exists>p out. (p, out) \<in> set (chats (new_actions s (snd (serve w reqs s)))) \<and>
                dict_get p (ascii ''user'') = Some (PStr u) \<and> returned_token out = Some v)) \<and>
         (\<forall>ans nc. chat_result (dify_chat w (trace s0) (chat_payload q u0 c f)) = Inr (ans, nc) \<and>
             \<not> truthy nc \<longrightarrow>
             user_sessions (snd (process_and_reply w tok q u0 c f s0)) = user_sessions s0 \<and>
             stores (new_actions s0 (snd (process_and_reply w tok q u0 c f s0))) = [])"
proof -
  have "rtranclp (step w) s (snd (serve w reqs s))"
    by (rule steps_serve)
  from steps_stores [OF this] obtain xs where
    tr: "trace (snd (serve w reqs s)) = trace s @ xs"
    and st: "\<forall>(u, v) \<in> set (stores xs). \<exists>p out. (p, out) \<in> set (chats xs) \<and>
        dict_get p (ascii ''user'') = Some (PStr u) \<and> returned_token out = Some v"
    and us: "\<forall>u v. user_sessions (snd (serve w reqs s)) u = Some v \<longrightarrow>
        user_sessions s u = Some v \<or> (u, v) \<in> set (stores xs)"
    by blast
  from tr have new: "new_actions s (snd (serve w reqs s)) = xs"
    by (rule new_actions_append)
  have stored: "truthy v" if "(u, v) \<in> set (stores xs)" for u v
    using st that returned_token_truthy by blast
  have 1: "\<forall>v \<in> ran (user_sessions (snd (serve w reqs s))). truthy v"
  proof
    fix v assume "v \<in> ran (user_sessions (snd (serve w reqs s)))"
    then obtain u where "user_sessions (snd (serve w reqs s)) u = Some v"
      by (auto simp: ran_def)
    with us have "user_sessions s u = Some v \<or> (u, v) \<in> set (stores xs)"
      by blast
    then show "truthy v"
      using assms stored by (auto simp: ran_def)
  qed
  have 2: "\<forall>(u, v) \<in> set (stores xs).
             truthy v \<and> (is_str v \<longrightarrow> v \<noteq> PStr []) \<and>
             (\<exists>p out. (p, out) \<in> set (chats xs) \<and>
                dict_get p (ascii ''user'') = Some (PStr u) \<and> returned_token out = Some v)"
    using st stored by fastforce
  from 1 2 process_and_reply_falsy_token show ?thesis
    unfolding new by blast
qed

theorem session_store_invariant_witness:
  "ran (user_sessions initial_state) = {} \<and>
   stores (new_actions initial_state
      (snd (serve fading_world [signed_request [97], signed_request [98], signed_request [99]]
         initial_state))) = [(ascii ''U1'', PStr (ascii ''c1''))] \<and>
   truthy (PStr (ascii ''c1'')) \<and>
   chat_result (dify_chat fading_world
      (trace (snd (serve fading_world [signed_request [97]] initial_state)))
      (chat_payload [98] (ascii ''U1'') (PStr (ascii ''c1'')) PNone)) =
     Inr (ascii ''hi'', PStr []) \<and>
   \<not> truthy (PStr []) \<and>
   user_sessions (snd (process_and_reply fading_world (ascii ''rt'') [98] (ascii ''U1'')
      (PStr (ascii ''c1'')) PNone (snd (serve fading_world [signed_request [97]] initial_state)))) =
     user_sessions (snd (serve fading_world [signed_request [97]] initial_state))"
proof -
  let ?s0 = "snd (serve fading_world [signed_request [97]] initial_state)"
  let ?run = "snd (serve fading_world [signed_request [97], signed_request [98], signed_request [99]]
         initial_state)"
  have e: "ran (user_sessions initial_state) = {}"
    by (simp add: initial_state_def)
  then have h: "\<forall>v \<in> ran (user_sessions initial_state). truthy v"
    by simp
  have st: "stores (new_actions initial_state ?run) = [(ascii ''U1'', PStr (ascii ''c1''))]"
    by (simp only: fading_run) (simp add: calls_simps)
  have cr: "chat_result (dify_chat fading_world (trace ?s0)
      (chat_payload [98] (ascii ''U1'') (PStr (ascii ''c1'')) PNone)) = Inr (ascii ''hi'', PStr [])"
    by (simp only: fading_first) (simp add: fading_world_fields calls_simps chat_result_replies)
  have falsy: "\<not> truthy (PStr [])"
    by simp
  from session_store_invariant [OF h, where w=fading_world
      and reqs="[signed_request [97], signed_request [98], signed_request [99]]"
      and ?s0.0="?s0" and q="[98]" and ?u0.0="ascii ''U1''" and c="PStr (ascii ''c1'')" and f=PNone
      and tok="ascii ''rt''"]
  have all: "\<forall>(u, v) \<in> set (stores (new_actions initial_state ?run)). truthy v"
    and keep: "user_sessions (snd (process_and_reply fading_world (ascii ''rt'') [98] (ascii ''U1'')
      (PStr (ascii ''c1'')) PNone ?s0)) = user_sessions ?s0"
    using cr falsy by blast+
  from all st have "truthy (PStr (ascii ''c1''))"
    by simp
  with e st cr falsy keep show ?thesis
    by (simp only: simp_thms)
qed

theorem session_store_invariant_as_stated_counterexample:
  "user_sessions (snd (dispatch numeric_token_world
      (TextMessageEvent (ascii ''U1'') (ascii ''rt'') (ascii ''hello'')) initial_state))
     (ascii ''U1'') = Some (PInt 5) \<and>
   stores (new_actions initial_state (snd (dispatch numeric_token_world
      (TextMessageEvent (ascii ''U1'') (ascii ''rt'') (ascii ''hello'')) initial_state))) =
     [(ascii ''U1'', PInt 5)] \<and>
   \<not> is_str (PInt 5)"
proof -
  let ?j = "PDict [(ascii ''answer'', PStr (ascii ''hi'')), (ascii ''conversation_id'', PInt 5)]"
  have cr: "chat_result (Json ?j) = Inr (ascii ''hi'', PInt 5)"
    by (simp add: chat_result_def http_json_def py_get_def dict_get_default_def py_strip_def
        py_isspace_def think_tags startswith_def ascii_def)
  have w: "dify_chat numeric_token_world tr p = Json ?j"
    "line_reply numeric_token_world tr tok t = True" for tr p tok t
    by (simp_all add: numeric_token_world_def good_world_def)
  have run: "snd (dispatch numeric_token_world
      (TextMessageEvent (ascii ''U1'') (ascii ''rt'') (ascii ''hello'')) initial_state) =
      \<lparr>user_sessions = (Map.empty)(ascii ''U1'' \<mapsto> PInt 5),
       trace = [ChatMessages (chat_payload (ascii ''hello'') (ascii ''U1'') (PStr []) PNone) (Json ?j),
                SessionSet (ascii ''U1'') (PInt 5),
                Reply (ascii ''rt'') (ascii ''hi'') True]\<rparr>"
    by (simp add: dispatch_def handle_text_message_def process_and_reply_def call_dify_api_eq
        reply_text_eq cr w session_get_def session_set_def log_def initial_state_def)
  have t0: "trace initial_state = []"
    by (simp add: initial_state_def)
  show ?thesis
    by (simp only: run) (simp add: new_actions_def t0 calls_simps is_str_def)
qed





end
